theory Spec2Isabelle
  imports Complex_Main "HOL-Library.Sublist" "HOL-Library.Product_Lexorder"
begin

section \<open>Python values\<close>

text \<open>
  The activities, holdings and valuations handled by \<^verbatim>\<open>SyncKoura.py\<close> are what
  \<^verbatim>\<open>response.json()\<close> returns: \<^verbatim>\<open>None\<close>, booleans, integers, floats, strings, lists
  and dicts with string keys. A dict is an association list in insertion order, read
  with \<open>map_of\<close>; its keys are meant to be distinct. An integer is an \<open>int\<close>. A float
  \<open>JFloat r\<close> is written by the decimal numeral \<open>r\<close> of the JSON text and denotes what the
  decoder reads from it: the double nearest to \<open>r\<close>, or an infinity when \<open>r\<close> is beyond
  the range of the doubles. The decoder's non-standard \<^verbatim>\<open>NaN\<close> literal and the sign of a
  zero are not represented. A character stands for one code point.
\<close>

datatype json =
    JNull
  | JBool bool
  | JInt int
  | JFloat rat
  | JStr string
  | JArr "json list"
  | JObj "(string \<times> json) list"

type_synonym pydict = "(string \<times> json) list"

text \<open>The exceptions the modelled code can raise.\<close>

datatype py_error =
    KeyError string
  | TypeError
  | ValueError
  | AttributeError
  | ZeroDivisionError
  | OverflowError

text \<open>Sequencing of computations that may raise: the first exception wins.\<close>

definition thn :: "py_error + 'a \<Rightarrow> ('a \<Rightarrow> py_error + 'b) \<Rightarrow> py_error + 'b" where
  "thn m f = (case m of Inl e \<Rightarrow> Inl e | Inr v \<Rightarrow> f v)"

text \<open>\<^verbatim>\<open>d[k]\<close>, \<^verbatim>\<open>d.get(k)\<close> and \<^verbatim>\<open>d.get(k, default)\<close>.\<close>

definition subscript :: "pydict \<Rightarrow> string \<Rightarrow> py_error + json" where
  "subscript d k = (case map_of d k of None \<Rightarrow> Inl (KeyError k) | Some v \<Rightarrow> Inr v)"

definition dict_get :: "pydict \<Rightarrow> string \<Rightarrow> json" where
  "dict_get d k = (case map_of d k of None \<Rightarrow> JNull | Some v \<Rightarrow> v)"

definition dict_get_default :: "pydict \<Rightarrow> string \<Rightarrow> json \<Rightarrow> json" where
  "dict_get_default d k dflt = (case map_of d k of None \<Rightarrow> dflt | Some v \<Rightarrow> v)"

subsection \<open>Numbers\<close>

text \<open>
  The value of a Python number: the exact value of an \<^verbatim>\<open>int\<close> or of a finite \<^verbatim>\<open>float\<close>,
  an infinity, or NaN.
\<close>

datatype number = Finite rat | PInf | NInf | NaN

text \<open>
  Rounding to the nearest double, a tie to the even significand: 53 bits of
  significand above the exponent \<open>-1074\<close> of the subnormal numbers. \<open>overflows\<close> tells
  that the nearest double would be \<open>2 ^ 1024\<close> or more, which no double is.
\<close>

function bit_length :: "int \<Rightarrow> int" where
  "bit_length n = (if n \<le> 0 then 0 else 1 + bit_length (n div 2))"
  by pat_completeness auto
termination
  by (relation "measure nat") auto

declare bit_length.simps [simp del]

definition pow2 :: "int \<Rightarrow> rat" where
  "pow2 k = (if 0 \<le> k then 2 ^ nat k else 1 / 2 ^ nat (- k))"

definition floor_log2 :: "rat \<Rightarrow> int" where
  "floor_log2 a =
     (if 1 \<le> a then bit_length \<lfloor>a\<rfloor> - 1 else - bit_length (\<lceil>1 / a\<rceil> - 1))"

definition round_half_even :: "rat \<Rightarrow> int" where
  "round_half_even x =
     (let f = \<lfloor>x\<rfloor>; d = x - of_int f
      in if d < 1 / 2 then f else if 1 / 2 < d then f + 1 else if even f then f else f + 1)"

definition to_double :: "rat \<Rightarrow> rat" where
  "to_double r =
     (if r = 0 then 0
      else (let a = \<bar>r\<bar>; q = max (floor_log2 a - 52) (- 1074)
            in sgn r * of_int (round_half_even (a / pow2 q)) * pow2 q))"

definition overflows :: "rat \<Rightarrow> bool" where
  "overflows r \<longleftrightarrow> 2 ^ 1024 - 2 ^ 970 \<le> \<bar>r\<bar>"

definition round_double :: "rat \<Rightarrow> number" where
  "round_double r =
     (if overflows r then (if 0 < r then PInf else NInf) else Finite (to_double r))"

text \<open>
  The value of a JSON number; \<^verbatim>\<open>bool\<close> is a subclass of \<^verbatim>\<open>int\<close> in Python, so \<^verbatim>\<open>True\<close>
  counts as 1 and \<^verbatim>\<open>False\<close> as 0.
\<close>

fun num_val :: "json \<Rightarrow> number option" where
  "num_val (JBool b) = Some (Finite (of_bool b))"
| "num_val (JInt i) = Some (Finite (of_int i))"
| "num_val (JFloat r) = Some (round_double r)"
| "num_val _ = None"

text \<open>\<^verbatim>\<open>==\<close> between two numbers: by value, and NaN equals nothing.\<close>

fun num_eq :: "number \<Rightarrow> number \<Rightarrow> bool" where
  "num_eq (Finite x) (Finite y) = (x = y)"
| "num_eq PInf PInf = True"
| "num_eq NInf NInf = True"
| "num_eq _ _ = False"

text \<open>\<^verbatim>\<open>abs\<close> of a float.\<close>

fun float_abs :: "number \<Rightarrow> number" where
  "float_abs (Finite x) = Finite \<bar>x\<bar>"
| "float_abs PInf = PInf"
| "float_abs NInf = PInf"
| "float_abs NaN = NaN"

text \<open>
  Python's \<^verbatim>\<open>==\<close> on these values: numbers compare by value across \<^verbatim>\<open>bool\<close>,
  \<^verbatim>\<open>int\<close> and \<^verbatim>\<open>float\<close>, lists compare element by element, dicts compare key by key
  whatever the insertion order.
\<close>

primrec py_eq :: "json \<Rightarrow> json \<Rightarrow> bool" where
  "py_eq JNull v = (v = JNull)"
| "py_eq (JBool b) v =
     (case num_val v of Some n \<Rightarrow> num_eq (Finite (of_bool b)) n | None \<Rightarrow> False)"
| "py_eq (JInt i) v =
     (case num_val v of Some n \<Rightarrow> num_eq (Finite (of_int i)) n | None \<Rightarrow> False)"
| "py_eq (JFloat r) v =
     (case num_val v of Some n \<Rightarrow> num_eq (round_double r) n | None \<Rightarrow> False)"
| "py_eq (JStr s) v = (v = JStr s)"
| "py_eq (JArr xs) v =
     (case v of JArr ys \<Rightarrow> list_all2 (\<lambda>f y. f y) (map py_eq xs) ys | _ \<Rightarrow> False)"
| "py_eq (JObj kvs) v =
     (case v of
        JObj kws \<Rightarrow>
          set (map fst kvs) = set (map fst kws) \<and>
          list_all
            (\<lambda>k. case (map_of (map (map_prod id py_eq) kvs) k, map_of kws k) of
                   (Some f, Some y) \<Rightarrow> f y
                 | _ \<Rightarrow> False)
            (map fst kvs)
      | _ \<Rightarrow> False)"

subsection \<open>\<^verbatim>\<open>float()\<close>\<close>

text \<open>
  \<^verbatim>\<open>float(s)\<close> on a string. Surrounding whitespace is stripped: the ASCII whitespace
  and the two other whitespace characters below 256, the next line character 133 and
  the no-break space 160. An optional sign follows, then \<^verbatim>\<open>inf\<close>, \<^verbatim>\<open>infinity\<close> or \<^verbatim>\<open>nan\<close> in
  any case, or a decimal numeral with an optional fraction (\<^verbatim>\<open>12\<close>, \<^verbatim>\<open>12.\<close>, \<^verbatim>\<open>.5\<close>, \<^verbatim>\<open>12.5\<close>)
  and an optional exponent; single underscores may stand between the digits of a run.
  The numeral is rounded to the nearest double, and to an infinity beyond the range.
\<close>

definition digit_val :: "char \<Rightarrow> nat option" where
  "digit_val c =
     (let n = (of_char c :: nat) in if 48 \<le> n \<and> n \<le> 57 then Some (n - 48) else None)"

definition is_digit :: "char \<Rightarrow> bool" where
  "is_digit c = (digit_val c \<noteq> None)"

definition digits_val :: "string \<Rightarrow> nat" where
  "digits_val ds = foldl (\<lambda>acc c. 10 * acc + the (digit_val c)) 0 ds"

definition digits_int :: "string \<Rightarrow> int" where
  "digits_int ds = foldl (\<lambda>acc c. 10 * acc + int (the (digit_val c))) 0 ds"

definition is_space :: "char \<Rightarrow> bool" where
  "is_space c =
     (let n = (of_char c :: nat)
      in n = 32 \<or> (9 \<le> n \<and> n \<le> 13) \<or> n = 133 \<or> n = 160)"

definition strip :: "string \<Rightarrow> string" where
  "strip s = rev (dropWhile is_space (rev (dropWhile is_space s)))"

definition split_sign :: "string \<Rightarrow> bool \<times> string" where
  "split_sign s =
     (case s of
        c # r \<Rightarrow> if c = CHR ''-'' then (True, r) else if c = CHR ''+'' then (False, r) else (False, s)
      | [] \<Rightarrow> (False, s))"

text \<open>A run of digits with single underscores between digits, and its value.\<close>

definition in_digit_run :: "char \<Rightarrow> bool" where
  "in_digit_run c = (is_digit c \<or> c = CHR ''_'')"

fun digit_run :: "string \<Rightarrow> bool" where
  "digit_run [] = False"
| "digit_run [c] = is_digit c"
| "digit_run (c # d # r) =
     (is_digit c \<and> (if d = CHR ''_'' then digit_run r else digit_run (d # r)))"

definition run_digits :: "string \<Rightarrow> string" where
  "run_digits s = filter is_digit s"

definition parse_exponent :: "string \<Rightarrow> int option" where
  "parse_exponent s =
     (case s of
        [] \<Rightarrow> Some 0
      | c # r \<Rightarrow>
          if c = CHR ''e'' \<or> c = CHR ''E'' then
            (let (neg, ds) = split_sign r in
             if digit_run ds
             then Some (if neg then - digits_int (run_digits ds)
                        else digits_int (run_digits ds))
             else None)
          else None)"

definition scale10 :: "rat \<Rightarrow> int \<Rightarrow> rat" where
  "scale10 r e = (if 0 \<le> e then r * 10 ^ nat e else r / 10 ^ nat (- e))"

definition decimal_of_str :: "string \<Rightarrow> rat option" where
  "decimal_of_str u =
     (let ip = takeWhile in_digit_run u;
          r1 = dropWhile in_digit_run u;
          dot = (r1 \<noteq> [] \<and> hd r1 = CHR ''.'');
          r2 = (if dot then tl r1 else r1);
          fp = takeWhile in_digit_run r2;
          r3 = dropWhile in_digit_run r2
      in if (ip = [] \<and> fp = []) \<or> (ip \<noteq> [] \<and> \<not> digit_run ip) \<or> (fp \<noteq> [] \<and> \<not> digit_run fp)
         then None
         else (case parse_exponent r3 of
                 None \<Rightarrow> None
               | Some e \<Rightarrow>
                   Some (scale10 (of_int (digits_int (run_digits ip)) +
                                  of_int (digits_int (run_digits fp)) /
                                    10 ^ length (run_digits fp)) e)))"

text \<open>The words for infinity and NaN, in any case.\<close>

definition same_letter :: "char \<Rightarrow> char \<Rightarrow> bool" where
  "same_letter c l = ((of_char c :: nat) = of_char l \<or> (of_char c :: nat) + 32 = of_char l)"

definition is_word :: "string \<Rightarrow> string \<Rightarrow> bool" where
  "is_word u w = list_all2 same_letter u w"

definition float_of_str :: "string \<Rightarrow> number option" where
  "float_of_str s =
     (let (neg, u) = split_sign (strip s)
      in if is_word u ''inf'' \<or> is_word u ''infinity'' then Some (if neg then NInf else PInf)
         else if is_word u ''nan'' then Some NaN
         else (case decimal_of_str u of
                 None \<Rightarrow> None
               | Some v \<Rightarrow> Some (round_double (if neg then - v else v))))"

text \<open>
  \<^verbatim>\<open>float(x)\<close>: a float is itself, an integer converts to the nearest double and raises
  \<^verbatim>\<open>OverflowError\<close> beyond the range, a string is parsed (\<^verbatim>\<open>ValueError\<close> when it is no
  numeral), anything else is a \<^verbatim>\<open>TypeError\<close>.
\<close>

definition float_of_int :: "int \<Rightarrow> py_error + number" where
  "float_of_int i =
     (if overflows (of_int i) then Inl OverflowError else Inr (Finite (to_double (of_int i))))"

fun py_float :: "json \<Rightarrow> py_error + number" where
  "py_float (JBool b) = Inr (Finite (of_bool b))"
| "py_float (JInt i) = float_of_int i"
| "py_float (JFloat r) = Inr (round_double r)"
| "py_float (JStr s) = (case float_of_str s of None \<Rightarrow> Inl ValueError | Some r \<Rightarrow> Inr r)"
| "py_float _ = Inl TypeError"

text \<open>\<^verbatim>\<open>x[0:18]\<close>: a string or a list is sliced, nothing else can be.\<close>

fun slice_0_18 :: "json \<Rightarrow> py_error + json" where
  "slice_0_18 (JStr s) = Inr (JStr (take 18 s))"
| "slice_0_18 (JArr xs) = Inr (JArr (take 18 xs))"
| "slice_0_18 _ = Inl TypeError"

text \<open>\<^verbatim>\<open>len(x)\<close>: defined on strings, lists and dicts.\<close>

fun py_len :: "json \<Rightarrow> py_error + nat" where
  "py_len (JStr s) = Inr (length s)"
| "py_len (JArr xs) = Inr (length xs)"
| "py_len (JObj kvs) = Inr (length (remdups (map fst kvs)))"
| "py_len _ = Inl TypeError"

section \<open>The Transaction Normalizer\<close>

text \<open>
  The dict both normalizers return has the same seven keys; it is a record here, and
  the \<^verbatim>\<open>==\<close> of two such dicts compares them key by key.
\<close>

record transaction =
  tx_accountId :: json
  tx_date :: json
  tx_fee :: number
  tx_quantity :: number
  tx_symbol :: json
  tx_type :: json
  tx_unitPrice :: json

definition tx_eq :: "transaction \<Rightarrow> transaction \<Rightarrow> bool" where
  "tx_eq a b \<longleftrightarrow>
     py_eq (tx_accountId a) (tx_accountId b) \<and> py_eq (tx_date a) (tx_date b) \<and>
     num_eq (tx_fee a) (tx_fee b) \<and> num_eq (tx_quantity a) (tx_quantity b) \<and>
     py_eq (tx_symbol a) (tx_symbol b) \<and> py_eq (tx_type a) (tx_type b) \<and>
     py_eq (tx_unitPrice a) (tx_unitPrice b)"

text \<open>
  The first statement of \<^verbatim>\<open>format_existing_act\<close>:
  \<^verbatim>\<open>act.get("SymbolProfile", {symbol_type: ""}).get(symbol_type)\<close>. An absent profile
  gives the empty string; a profile that is no dict has no \<^verbatim>\<open>get\<close>.
\<close>

definition nested_symbol :: "pydict \<Rightarrow> string \<Rightarrow> py_error + json" where
  "nested_symbol act symbol_type =
     (case map_of act ''SymbolProfile'' of
        None \<Rightarrow> Inr (JStr [])
      | Some (JObj profile) \<Rightarrow> Inr (dict_get profile symbol_type)
      | Some _ \<Rightarrow> Inl AttributeError)"

text \<open>The test \<^verbatim>\<open>symbol is None or len(symbol) == 0\<close>.\<close>

definition symbol_missing :: "json \<Rightarrow> py_error + bool" where
  "symbol_missing symbol =
     (if symbol = JNull then Inr True else thn (py_len symbol) (\<lambda>n. Inr (n = 0)))"

text \<open>
  The fallback branch: the arguments of \<^verbatim>\<open>logger.warning\<close> are evaluated before the
  call, \<^verbatim>\<open>act["id"]\<close> among them; the log line itself changes nothing. Then the flat
  field is read with the default \<^verbatim>\<open>""\<close>.
\<close>

definition resolve_symbol :: "pydict \<Rightarrow> string \<Rightarrow> py_error + json" where
  "resolve_symbol act symbol_type =
     thn (nested_symbol act symbol_type) (\<lambda>symbol.
     thn (symbol_missing symbol) (\<lambda>missing.
       if missing then
         thn (subscript act ''id'') (\<lambda>_. Inr (dict_get_default act ''symbol'' (JStr [])))
       else Inr symbol))"

text \<open>The fields both normalizers build the same way, in the order of the dict display.\<close>

definition format_existing_act :: "pydict \<Rightarrow> string \<Rightarrow> py_error + transaction" where
  "format_existing_act act symbol_type =
     thn (resolve_symbol act symbol_type) (\<lambda>sym.
     thn (subscript act ''accountId'') (\<lambda>acc.
     thn (thn (subscript act ''date'') slice_0_18) (\<lambda>d.
     thn (thn (subscript act ''fee'') py_float) (\<lambda>f.
     thn (thn (subscript act ''quantity'') py_float) (\<lambda>q.
     thn (subscript act ''type'') (\<lambda>ty.
     thn (subscript act ''unitPrice'') (\<lambda>up.
       Inr \<lparr>tx_accountId = acc, tx_date = d, tx_fee = float_abs f, tx_quantity = float_abs q,
            tx_symbol = sym, tx_type = ty, tx_unitPrice = up\<rparr>)))))))"

definition format_new_act :: "pydict \<Rightarrow> string \<Rightarrow> py_error + transaction" where
  "format_new_act act symbol_type =
     thn (subscript act ''accountId'') (\<lambda>acc.
     thn (thn (subscript act ''date'') slice_0_18) (\<lambda>d.
     thn (thn (subscript act ''fee'') py_float) (\<lambda>f.
     thn (thn (subscript act ''quantity'') py_float) (\<lambda>q.
     thn (subscript act ''type'') (\<lambda>ty.
     thn (subscript act ''unitPrice'') (\<lambda>up.
       Inr \<lparr>tx_accountId = acc, tx_date = d, tx_fee = float_abs f, tx_quantity = float_abs q,
            tx_symbol = dict_get_default act symbol_type (JStr []), tx_type = ty,
            tx_unitPrice = up\<rparr>))))))"

section \<open>The Identity Extractor\<close>

text \<open>
  \<^verbatim>\<open>re.search(r"transactionId=([^|]+)", comment)\<close> followed by \<^verbatim>\<open>match.group(1)\<close>. The
  search tries the start positions from left to right; at a position the literal must
  match and at least one character other than the pipe must follow; the group is greedy,
  so it runs to the next pipe or to the end. \<open>None\<close> is the failed search.
\<close>

definition marker :: string where
  "marker = ''transactionId=''"

definition match_here :: "string \<Rightarrow> string option" where
  "match_here s =
     (if take (length marker) s = marker
      then (let g = takeWhile (\<lambda>c. c \<noteq> CHR ''|'') (drop (length marker) s)
            in if g = [] then None else Some g)
      else None)"

fun re_search :: "string \<Rightarrow> string option" where
  "re_search [] = None"
| "re_search (c # cs) =
     (case match_here (c # cs) of Some g \<Rightarrow> Some g | None \<Rightarrow> re_search cs)"

text \<open>
  The lines both \<^verbatim>\<open>is_act_present\<close> and \<^verbatim>\<open>get_diff\<close> start with:
  \<^verbatim>\<open>comment = act.get("comment")\<close>, then the search when the comment is not \<^verbatim>\<open>None\<close>.
  \<^verbatim>\<open>re.search\<close> raises \<^verbatim>\<open>TypeError\<close> on a comment that is no string.
\<close>

definition transaction_id_of :: "pydict \<Rightarrow> py_error + string option" where
  "transaction_id_of act =
     (case dict_get act ''comment'' of
        JNull \<Rightarrow> Inr None
      | JStr comment \<Rightarrow> Inr (re_search comment)
      | _ \<Rightarrow> Inl TypeError)"

section \<open>The Diff Engine\<close>

text \<open>
  The legacy comparison of \<^verbatim>\<open>is_act_present\<close>: the loop over the existing activities.
  Both activities are normalized inside the loop body, the existing one first, so
  nothing is normalized when there is no existing activity.
\<close>

fun legacy_comparison :: "pydict \<Rightarrow> pydict list \<Rightarrow> py_error + bool" where
  "legacy_comparison new_act [] = Inr False"
| "legacy_comparison new_act (existing_act # rest) =
     thn (format_existing_act existing_act ''symbol'') (\<lambda>formatted_act.
     thn (format_new_act new_act ''symbol'') (\<lambda>formatted_new_act.
       if tx_eq formatted_act formatted_new_act then Inr True
       else legacy_comparison new_act rest))"

definition is_act_present :: "pydict \<Rightarrow> pydict list \<Rightarrow> string set \<Rightarrow> py_error + bool" where
  "is_act_present new_act existing_acts synced_acts_ids =
     thn (transaction_id_of new_act) (\<lambda>m.
       case m of
         Some transaction_id \<Rightarrow>
           if transaction_id \<in> synced_acts_ids then Inr True
           else legacy_comparison new_act existing_acts
       | None \<Rightarrow> legacy_comparison new_act existing_acts)"

text \<open>The first loop of \<^verbatim>\<open>get_diff\<close>: the identifiers found in the existing activities.\<close>

fun collect_synced_ids :: "pydict list \<Rightarrow> string set \<Rightarrow> py_error + string set" where
  "collect_synced_ids [] synced_acts_ids = Inr synced_acts_ids"
| "collect_synced_ids (old_act # rest) synced_acts_ids =
     thn (transaction_id_of old_act) (\<lambda>m.
       case m of
         Some transaction_id \<Rightarrow> collect_synced_ids rest (insert transaction_id synced_acts_ids)
       | None \<Rightarrow> collect_synced_ids rest synced_acts_ids)"

text \<open>The second loop: the candidates that are not present, in their order.\<close>

fun collect_diff :: "pydict list \<Rightarrow> pydict list \<Rightarrow> string set \<Rightarrow> py_error + pydict list" where
  "collect_diff [] old_acts synced_acts_ids = Inr []"
| "collect_diff (new_act # rest) old_acts synced_acts_ids =
     thn (is_act_present new_act old_acts synced_acts_ids) (\<lambda>present.
     thn (collect_diff rest old_acts synced_acts_ids) (\<lambda>diff.
       Inr (if present then diff else new_act # diff)))"

definition get_diff :: "pydict list \<Rightarrow> pydict list \<Rightarrow> py_error + pydict list" where
  "get_diff old_acts new_acts =
     thn (collect_synced_ids old_acts {}) (\<lambda>synced_acts_ids.
       collect_diff new_acts old_acts synced_acts_ids)"

section \<open>The Fund Snapshot Reconstructor\<close>

text \<open>Truth value testing, as in \<^verbatim>\<open>x or y\<close> and \<^verbatim>\<open>not x\<close>.\<close>

fun py_truthy :: "json \<Rightarrow> bool" where
  "py_truthy JNull = False"
| "py_truthy (JBool b) = b"
| "py_truthy (JInt i) = (i \<noteq> 0)"
| "py_truthy (JFloat r) = (r \<noteq> 0)"
| "py_truthy (JStr s) = (s \<noteq> [])"
| "py_truthy (JArr xs) = (xs \<noteq> [])"
| "py_truthy (JObj kvs) = (kvs \<noteq> [])"

definition py_or :: "json \<Rightarrow> json \<Rightarrow> json" where
  "py_or a b = (if py_truthy a then a else b)"

definition digit_char :: "nat \<Rightarrow> char" where
  "digit_char n = ''0123456789'' ! n"

function show_digits :: "int \<Rightarrow> string" where
  "show_digits n =
     (if n < 10 then [digit_char (nat n)]
      else show_digits (n div 10) @ [digit_char (nat (n mod 10))])"
  by pat_completeness auto
termination
  by (relation "measure nat") auto

declare show_digits.simps [simp del]

definition show_int :: "int \<Rightarrow> string" where
  "show_int i = (if i < 0 then CHR ''-'' # show_digits (- i) else show_digits i)"

text \<open>
  \<^verbatim>\<open>str(x)\<close>. The text of a float, and with it the text of a list or a dict, depends on
  the binary representation of the float; it is the parameter \<open>repr\<close>.
\<close>

fun py_str :: "(json \<Rightarrow> string) \<Rightarrow> json \<Rightarrow> string" where
  "py_str repr (JStr s) = s"
| "py_str repr JNull = ''None''"
| "py_str repr (JBool b) = (if b then ''True'' else ''False'')"
| "py_str repr (JInt i) = show_int i"
| "py_str repr v = repr v"

text \<open>\<^verbatim>\<open>x <= 0\<close>: an order between numbers only.\<close>

fun num_le_zero :: "number \<Rightarrow> bool" where
  "num_le_zero (Finite r) = (r \<le> 0)"
| "num_le_zero NInf = True"
| "num_le_zero _ = False"

definition le_zero :: "json \<Rightarrow> py_error + bool" where
  "le_zero x = (case num_val x of None \<Rightarrow> Inl TypeError | Some n \<Rightarrow> Inr (num_le_zero n))"

text \<open>
  \<^verbatim>\<open>x / y\<close> on numbers. Two integers are divided exactly and the quotient is rounded to
  the nearest double, with \<^verbatim>\<open>OverflowError\<close> beyond the range. Otherwise both operands
  are converted to floats, which raises for an integer beyond the range, and divided as
  floats: a quotient beyond the range is an infinity. A zero divisor raises in both
  cases.
\<close>

fun int_val :: "json \<Rightarrow> int option" where
  "int_val (JBool b) = Some (of_bool b)"
| "int_val (JInt i) = Some i"
| "int_val _ = None"

fun ieee_div :: "number \<Rightarrow> number \<Rightarrow> number" where
  "ieee_div (Finite x) (Finite y) = round_double (x / y)"
| "ieee_div (Finite x) PInf = Finite 0"
| "ieee_div (Finite x) NInf = Finite 0"
| "ieee_div PInf (Finite y) = (if 0 < y then PInf else NInf)"
| "ieee_div NInf (Finite y) = (if 0 < y then NInf else PInf)"
| "ieee_div _ _ = NaN"

definition float_div :: "number \<Rightarrow> number \<Rightarrow> py_error + number" where
  "float_div a b = (if b = Finite 0 then Inl ZeroDivisionError else Inr (ieee_div a b))"

definition truediv :: "json \<Rightarrow> json \<Rightarrow> py_error + number" where
  "truediv x y =
     (case (int_val x, int_val y) of
        (Some a, Some b) \<Rightarrow>
          if b = 0 then Inl ZeroDivisionError
          else if overflows (of_int a / of_int b) then Inl OverflowError
          else Inr (Finite (to_double (of_int a / of_int b)))
      | _ \<Rightarrow>
          (case (num_val x, num_val y) of
             (Some _, Some _) \<Rightarrow> thn (py_float x) (\<lambda>a. thn (py_float y) (\<lambda>b. float_div a b))
           | _ \<Rightarrow> Inl TypeError))"

text \<open>
  \<^verbatim>\<open>round(x, 2)\<close>: an integer is returned as it is, an infinity too; a finite float is
  rounded to the nearest multiple of 0.01, a tie to the even one, and the result is the
  double nearest to that multiple.
\<close>

fun round2 :: "json \<Rightarrow> py_error + json" where
  "round2 (JBool b) = Inr (JInt (of_bool b))"
| "round2 (JInt i) = Inr (JInt i)"
| "round2 (JFloat r) =
     Inr (if overflows r then JFloat r
          else JFloat (to_double (of_int (round_half_even (to_double r * 100)) / 100)))"
| "round2 _ = Inl TypeError"

text \<open>
  The format specification \<^verbatim>\<open>:.4f\<close> of the f-string: the float, rounded to four decimals
  (a tie to the even one), or its name when it is not finite. An integer is converted
  to a float first.
\<close>

definition fixed4 :: "rat \<Rightarrow> string" where
  "fixed4 x =
     (let n = round_half_even (\<bar>x\<bar> * 10000);
          fs = show_digits (n mod 10000)
      in (if x < 0 then ''-'' else []) @ show_digits (n div 10000) @ ''.'' @
         replicate (4 - length fs) CHR ''0'' @ fs)"

fun format_float :: "number \<Rightarrow> string" where
  "format_float (Finite x) = fixed4 x"
| "format_float PInf = ''inf''"
| "format_float NInf = ''-inf''"
| "format_float NaN = ''nan''"

fun format_4f :: "json \<Rightarrow> py_error + string" where
  "format_4f (JStr s) = Inl ValueError"
| "format_4f v =
     (case num_val v of
        None \<Rightarrow> Inl TypeError
      | Some _ \<Rightarrow> thn (py_float v) (\<lambda>x. Inr (format_float x)))"

text \<open>The fund code: \<^verbatim>\<open>str(fund.get('fundId') or fund.get('code', ''))\<close>.\<close>

definition fund_code :: "(json \<Rightarrow> string) \<Rightarrow> pydict \<Rightarrow> string" where
  "fund_code repr fund =
     py_str repr (py_or (dict_get fund ''fundId'') (dict_get_default fund ''code'' (JStr [])))"

text \<open>
  The body of the loop of \<^verbatim>\<open>reconstruct_fund_purchases\<close> for one holding: \<open>None\<close> is
  \<^verbatim>\<open>continue\<close>, \<open>Some activity\<close> is the appended activity. \<^verbatim>\<open>self.fund_mapping\<close>,
  \<^verbatim>\<open>self.ghost_currency\<close> and the value of \<^verbatim>\<open>datetime.now().isoformat()\<close> are parameters;
  the log lines change nothing.
\<close>

definition holding_activity ::
  "(json \<Rightarrow> string) \<Rightarrow> pydict \<Rightarrow> string \<Rightarrow> string \<Rightarrow> pydict \<Rightarrow> py_error + pydict option" where
  "holding_activity repr fund_mapping ghost_currency today fund =
     (let code = fund_code repr fund;
          units = dict_get_default fund ''units'' (JInt 0);
          val = dict_get_default fund ''value'' (JInt 0)
      in thn (le_zero val) (\<lambda>v0.
         thn (if v0 then Inr True else le_zero units) (\<lambda>skip.
           if skip then Inr None
           else
             (let symbol = dict_get fund_mapping code
              in if \<not> py_truthy symbol then Inr None
                 else
                   thn (format_4f units) (\<lambda>us.
                   thn (thn (truediv val units) (\<lambda>p. Inr (format_float p))) (\<lambda>ps.
                   thn (round2 val) (\<lambda>q.
                     Inr (Some
                       [(''accountId'', JNull),
                        (''comment'', JStr (''Current holdings: '' @ us @ '' units @ $'' @ ps
                                            @ '' per unit'')),
                        (''currency'', JStr ghost_currency),
                        (''dataSource'', JStr ''MANUAL''),
                        (''date'', JStr today),
                        (''fee'', JInt 0),
                        (''quantity'', q),
                        (''symbol'', symbol),
                        (''type'', JStr ''BUY''),
                        (''unitPrice'', JFloat 1)]))))))))"

text \<open>
  The loop. The arguments \<^verbatim>\<open>transactions\<close> and \<^verbatim>\<open>account_details\<close> of the method are
  never read and are left out.
\<close>

fun reconstruct_fund_purchases ::
  "(json \<Rightarrow> string) \<Rightarrow> pydict \<Rightarrow> string \<Rightarrow> string \<Rightarrow> pydict list \<Rightarrow> py_error + pydict list" where
  "reconstruct_fund_purchases repr fund_mapping ghost_currency today [] = Inr []"
| "reconstruct_fund_purchases repr fund_mapping ghost_currency today (fund # rest) =
     thn (holding_activity repr fund_mapping ghost_currency today fund) (\<lambda>r.
     thn (reconstruct_fund_purchases repr fund_mapping ghost_currency today rest) (\<lambda>activities.
       Inr (case r of None \<Rightarrow> activities | Some activity \<Rightarrow> activity # activities)))"

text \<open>The fund mapping \<^verbatim>\<open>__init__\<close> starts from.\<close>

definition default_fund_mapping :: pydict where
  "default_fund_mapping =
     [(''810001'', JStr ''GF_KOURACASH''),
      (''810002'', JStr ''GF_KOURAFI''),
      (''810003'', JStr ''GF_KOURANZEQ''),
      (''810004'', JStr ''GF_KOURAUSEQ''),
      (''810005'', JStr ''GF_KOURAROWEQ''),
      (''810006'', JStr ''GF_KOURAEMEQ''),
      (''810007'', JStr ''GF_KOURABTC''),
      (''810008'', JStr ''GF_KOURACLEAN''),
      (''810009'', JStr ''GF_KOURAPROP''),
      (''810010'', JStr ''GF_KOURASTRAT'')]"

section \<open>Unit price of a date\<close>

text \<open>
  \<^verbatim>\<open>datetime.strptime(s, "%Y-%m-%d")\<close>: four digits for the year, a month written
  \<^verbatim>\<open>01\<close> to \<^verbatim>\<open>12\<close> or \<^verbatim>\<open>1\<close> to \<^verbatim>\<open>9\<close>, a day written \<^verbatim>\<open>01\<close> to \<^verbatim>\<open>31\<close>, \<^verbatim>\<open>1\<close> to \<^verbatim>\<open>9\<close> or a
  space and \<^verbatim>\<open>1\<close> to \<^verbatim>\<open>9\<close>, nothing after the day; the year is at least 1 and the day
  exists in the month. Everything else is a \<^verbatim>\<open>ValueError\<close>. The \<^verbatim>\<open>datetime\<close> is the
  triple of year, month and day, ordered lexicographically.
\<close>

type_synonym ymd = "nat \<times> nat \<times> nat"

definition two_digits :: "string \<Rightarrow> nat option" where
  "two_digits s =
     (case s of
        [a] \<Rightarrow> (case digit_val a of Some x \<Rightarrow> if 1 \<le> x then Some x else None | None \<Rightarrow> None)
      | [a, b] \<Rightarrow>
          (case (digit_val a, digit_val b) of
             (Some x, Some y) \<Rightarrow> if 1 \<le> 10 * x + y then Some (10 * x + y) else None
           | _ \<Rightarrow> None)
      | _ \<Rightarrow> None)"

definition parse_month :: "string \<Rightarrow> nat option" where
  "parse_month s = (case two_digits s of Some m \<Rightarrow> if m \<le> 12 then Some m else None | None \<Rightarrow> None)"

definition parse_day :: "string \<Rightarrow> nat option" where
  "parse_day s =
     (case two_digits (if length s = 2 \<and> hd s = CHR '' '' then tl s else s) of
        Some d \<Rightarrow> if d \<le> 31 then Some d else None
      | None \<Rightarrow> None)"

definition is_leap :: "nat \<Rightarrow> bool" where
  "is_leap y \<longleftrightarrow> y mod 4 = 0 \<and> (y mod 100 \<noteq> 0 \<or> y mod 400 = 0)"

definition days_in_month :: "nat \<Rightarrow> nat \<Rightarrow> nat" where
  "days_in_month y m =
     (if m = 2 then (if is_leap y then 29 else 28)
      else if m = 4 \<or> m = 6 \<or> m = 9 \<or> m = 11 then 30 else 31)"

definition strptime :: "string \<Rightarrow> py_error + ymd" where
  "strptime s =
     (let ys = take 4 s; r = drop 4 s;
          ms = takeWhile (\<lambda>c. c \<noteq> CHR ''-'') (drop 1 r);
          ds = drop (Suc (length ms)) (drop 1 r)
      in if length ys = 4 \<and> list_all is_digit ys \<and> take 1 r = ''-''
            \<and> length ms < length (drop 1 r)
         then (case (parse_month ms, parse_day ds) of
                 (Some m, Some d) \<Rightarrow>
                   if 1 \<le> digits_val ys \<and> d \<le> days_in_month (digits_val ys) m
                   then Inr (digits_val ys, m, d) else Inl ValueError
               | _ \<Rightarrow> Inl ValueError)
         else Inl ValueError)"

text \<open>
  The loop over \<^verbatim>\<open>valuation.items()\<close>, carrying \<^verbatim>\<open>closest_date\<close> and \<^verbatim>\<open>closest_price\<close>;
  \<open>later_than\<close> is the test \<^verbatim>\<open>closest_date is None or date_dt > closest_date\<close>.
\<close>

fun later_than :: "ymd option \<Rightarrow> ymd \<Rightarrow> bool" where
  "later_than None date_dt = True"
| "later_than (Some closest_date) date_dt = (closest_date < date_dt)"

fun closest_previous :: "ymd \<Rightarrow> pydict \<Rightarrow> ymd option \<Rightarrow> json \<Rightarrow> py_error + json" where
  "closest_previous transaction_dt [] closest_date closest_price = Inr closest_price"
| "closest_previous transaction_dt ((date_str, price) # rest) closest_date closest_price =
     thn (strptime date_str) (\<lambda>date_dt.
       if date_dt \<le> transaction_dt \<and> later_than closest_date date_dt
       then closest_previous transaction_dt rest (Some date_dt) price
       else closest_previous transaction_dt rest closest_date closest_price)"

text \<open>
  \<^verbatim>\<open>get_unit_price_for_date\<close>. A \<^verbatim>\<open>valuation\<close> that is no dict makes the method raise:
  the membership test or the subscript fails with \<^verbatim>\<open>TypeError\<close>, or, for a string or a
  list without the date, \<^verbatim>\<open>strptime\<close> fails or \<^verbatim>\<open>items\<close> does not exist.
\<close>

definition get_unit_price_for_date :: "pydict \<Rightarrow> string \<Rightarrow> py_error + json" where
  "get_unit_price_for_date fund_data transaction_date =
     (case dict_get_default fund_data ''valuation'' (JObj []) of
        JObj valuation \<Rightarrow>
          (case map_of valuation transaction_date of
             Some price \<Rightarrow> Inr price
           | None \<Rightarrow>
               thn (strptime transaction_date) (\<lambda>transaction_dt.
                 closest_previous transaction_dt valuation None JNull))
      | JStr s \<Rightarrow>
          if sublist transaction_date s then Inl TypeError
          else thn (strptime transaction_date) (\<lambda>_. Inl AttributeError)
      | JArr xs \<Rightarrow>
          if list_ex (py_eq (JStr transaction_date)) xs then Inl TypeError
          else thn (strptime transaction_date) (\<lambda>_. Inl AttributeError)
      | _ \<Rightarrow> Inl TypeError)"

section \<open>Example activities\<close>

text \<open>
  The two activities of the specification's legacy-equality example: a ledger activity
  with string amounts, a negative quantity and a nested symbol, and a candidate with
  numeric amounts and a flat symbol.
\<close>

definition ledger_example :: pydict where
  "ledger_example =
     [(''accountId'', JStr ''1''), (''date'', JStr ''2024-01-01T00:00:00Z''),
      (''fee'', JStr ''0''), (''quantity'', JStr ''-5.0''),
      (''SymbolProfile'', JObj [(''symbol'', JStr ''GF_KOURABTC'')]),
      (''type'', JStr ''BUY''), (''unitPrice'', JInt 10)]"

text \<open>The ledger activity again, its amounts written as non-negative numbers.\<close>

definition numeric_ledger_example :: pydict where
  "numeric_ledger_example =
     [(''accountId'', JStr ''1''), (''date'', JStr ''2024-01-01T00:00:00Z''),
      (''fee'', JInt 0), (''quantity'', JFloat 5),
      (''SymbolProfile'', JObj [(''symbol'', JStr ''GF_KOURABTC'')]),
      (''type'', JStr ''BUY''), (''unitPrice'', JInt 10)]"

definition candidate_example :: pydict where
  "candidate_example =
     [(''accountId'', JStr ''1''), (''date'', JStr ''2024-01-01T00:00:00Z''),
      (''fee'', JInt 0), (''quantity'', JFloat 5), (''symbol'', JStr ''GF_KOURABTC''),
      (''type'', JStr ''BUY''), (''unitPrice'', JInt 10)]"

text \<open>
  The activities of the identifier example: the ledger activity carries
  \<^verbatim>\<open>transactionId=ABC123\<close> between other notes, the candidate carries the same
  identifier and another fee.
\<close>

definition tagged_ledger_example :: pydict where
  "tagged_ledger_example =
     [(''id'', JStr ''a1''), (''accountId'', JStr ''1''),
      (''date'', JStr ''2024-01-01T00:00:00Z''), (''fee'', JFloat (1 / 2)),
      (''quantity'', JInt 5),
      (''SymbolProfile'', JObj [(''symbol'', JStr ''GF_KOURABTC'')]),
      (''type'', JStr ''BUY''), (''unitPrice'', JInt 10),
      (''comment'', JStr ''note|transactionId=ABC123|more'')]"

definition tagged_candidate_example :: pydict where
  "tagged_candidate_example =
     [(''accountId'', JStr ''1''), (''date'', JStr ''2024-01-01T00:00:00Z''),
      (''fee'', JFloat (3 / 4)), (''quantity'', JInt 5),
      (''symbol'', JStr ''GF_KOURABTC''), (''type'', JStr ''BUY''), (''unitPrice'', JInt 10),
      (''comment'', JStr ''transactionId=ABC123'')]"

text \<open>
  A ledger activity whose comment carries two identifiers, and a candidate that carries
  the second one and a quantity of its own.
\<close>

definition two_marker_ledger :: pydict where
  "two_marker_ledger =
     [(''id'', JStr ''a2''), (''accountId'', JStr ''1''),
      (''date'', JStr ''2024-01-01T00:00:00Z''), (''fee'', JInt 0), (''quantity'', JInt 5),
      (''SymbolProfile'', JObj [(''symbol'', JStr ''GF_KOURABTC'')]),
      (''type'', JStr ''BUY''), (''unitPrice'', JInt 10),
      (''comment'', JStr ''transactionId=A|transactionId=B'')]"

definition second_marker_candidate :: pydict where
  "second_marker_candidate =
     [(''accountId'', JStr ''1''), (''date'', JStr ''2024-01-01T00:00:00Z''),
      (''fee'', JInt 0), (''quantity'', JInt 7), (''symbol'', JStr ''GF_KOURABTC''),
      (''type'', JStr ''BUY''), (''unitPrice'', JInt 10),
      (''comment'', JStr ''transactionId=B'')]"

section \<open>Example holdings\<close>

text \<open>
  The holdings of the specification's examples: one without value and units, one of
  100 units worth 150.0 in the cash fund, and one with a code no mapping knows.
\<close>

definition empty_holding :: pydict where
  "empty_holding =
     [(''code'', JStr ''810002''), (''name'', JStr ''Fixed Interest Fund''),
      (''units'', JInt 0), (''value'', JInt 0)]"

definition cash_holding :: pydict where
  "cash_holding =
     [(''code'', JStr ''810001''), (''name'', JStr ''Cash Fund''),
      (''units'', JInt 100), (''value'', JFloat 150)]"

definition unmapped_holding :: pydict where
  "unmapped_holding =
     [(''code'', JStr ''999999''), (''name'', JStr ''Other Fund''),
      (''units'', JInt 10), (''value'', JFloat 20)]"

text \<open>A fund mapping whose only entry maps the cash fund to the empty symbol.\<close>

definition empty_symbol_mapping :: pydict where
  "empty_symbol_mapping = [(''810001'', JStr [])]"

text \<open>A holding with three valuations, not in the order of their dates.\<close>

definition valued_holding :: pydict where
  "valued_holding =
     [(''code'', JStr ''810001''),
      (''valuation'', JObj [(''2024-01-01'', JFloat 1), (''2024-01-10'', JFloat 2),
                            (''2024-01-05'', JFloat 3)])]"

text \<open>
  A number that \<^verbatim>\<open>float\<close> converts: every float and boolean, and every integer within
  the range of the doubles.
\<close>

definition fits_float :: "json \<Rightarrow> bool" where
  "fits_float x \<longleftrightarrow> num_val x \<noteq> None \<and> py_float x \<noteq> Inl OverflowError"

text \<open>A number greater than zero.\<close>

definition positive :: "json \<Rightarrow> bool" where
  "positive x = (case num_val x of Some n \<Rightarrow> \<not> num_le_zero n | None \<Rightarrow> False)"

text \<open>
  What a claim means by a comment that contains the marker of \<open>x\<close>: the literal, then
  \<open>x\<close>, non-empty and free of pipes, then a pipe or the end.
\<close>

definition contains_marker :: "string \<Rightarrow> string \<Rightarrow> bool" where
  "contains_marker x s \<longleftrightarrow>
     x \<noteq> [] \<and> CHR ''|'' \<notin> set x \<and>
     (\<exists>pre rest. s = pre @ marker @ x @ rest \<and> (rest = [] \<or> hd rest = CHR ''|''))"

section \<open>Basic facts\<close>

lemma thn_Inr [simp]: "thn (Inr v) f = f v"
  by (simp add: thn_def)

lemma thn_Inl [simp]: "thn (Inl e) f = Inl e"
  by (simp add: thn_def)

lemma thn_eq_Inr: "thn m f = Inr y \<longleftrightarrow> (\<exists>v. m = Inr v \<and> f v = Inr y)"
  by (cases m) simp_all

lemma thn_return [simp]: "thn m Inr = m"
  by (cases m) simp_all

lemmas lookup_defs = subscript_def dict_get_def dict_get_default_def

text \<open>The doubles of the examples.\<close>

lemma to_double_samples:
  "to_double 0 = 0" "to_double 5 = 5" "to_double (- 5) = - 5" "to_double 7 = 7"
  "to_double 8 = 8" "to_double 10 = 10" "to_double 20 = 20" "to_double 100 = 100"
  "to_double 150 = 150"
  "to_double (1 / 2) = 1 / 2" "to_double (3 / 4) = 3 / 4" "to_double (3 / 2) = 3 / 2"
  by code_simp+

lemma overflows_samples:
  "\<not> overflows 0" "\<not> overflows 5" "\<not> overflows (- 5)" "\<not> overflows 7" "\<not> overflows 8"
  "\<not> overflows 10" "\<not> overflows 20" "\<not> overflows 100" "\<not> overflows 150"
  "\<not> overflows (1 / 2)" "\<not> overflows (3 / 4)"
  "\<not> overflows (3 / 2)"
  by (simp_all add: overflows_def)

lemmas float_defs = float_of_str_def decimal_of_str_def split_sign_def strip_def is_space_def
  is_digit_def in_digit_run_def run_digits_def is_word_def same_letter_def digit_val_def
  digits_int_def parse_exponent_def scale10_def round_double_def float_of_int_def
  to_double_samples overflows_samples

lemmas normalizer_defs = format_existing_act_def format_new_act_def resolve_symbol_def
  nested_symbol_def symbol_missing_def tx_eq_def

lemmas diff_defs = get_diff_def is_act_present_def transaction_id_of_def match_here_def
  marker_def

section \<open>The loops of the Diff Engine\<close>

lemma collect_diff_Inr:
  "collect_diff new old ids = Inr d \<Longrightarrow>
     (\<forall>c\<in>set new. \<exists>b. is_act_present c old ids = Inr b) \<and>
     d = filter (\<lambda>c. is_act_present c old ids = Inr False) new"
proof (induction new arbitrary: d)
  case Nil
  then show ?case by simp
next
  case (Cons c cs)
  from Cons.prems obtain p d' where p: "is_act_present c old ids = Inr p"
    and d': "collect_diff cs old ids = Inr d'"
    and d: "d = (if p then d' else c # d')"
    by (auto simp: thn_eq_Inr)
  from Cons.IH [OF d'] p d show ?case by auto
qed

lemma collect_diff_total:
  "\<forall>c\<in>set new. \<exists>b. is_act_present c old ids = Inr b \<Longrightarrow>
     collect_diff new old ids = Inr (filter (\<lambda>c. is_act_present c old ids = Inr False) new)"
  by (induction new) auto

lemma collect_diff_skip:
  "is_act_present c old ids = Inr True \<Longrightarrow>
     collect_diff (cs1 @ c # cs2) old ids = collect_diff (cs1 @ cs2) old ids"
  by (induction cs1) simp_all

lemma collect_synced_ids_Inr:
  "collect_synced_ids old S = Inr ids \<Longrightarrow>
     (\<forall>a\<in>set old. \<exists>m. transaction_id_of a = Inr m) \<and>
     ids = S \<union> {x. \<exists>a\<in>set old. transaction_id_of a = Inr (Some x)}"
proof (induction old arbitrary: S)
  case Nil
  then show ?case by simp
next
  case (Cons a as)
  from Cons.prems obtain m where m: "transaction_id_of a = Inr m"
    and r: "collect_synced_ids as (case m of None \<Rightarrow> S | Some x \<Rightarrow> insert x S) = Inr ids"
    by (auto simp: thn_eq_Inr split: option.splits)
  from Cons.IH [OF r] m show ?case
    by (cases m) auto
qed

lemma collect_synced_ids_total:
  "\<forall>a\<in>set old. \<exists>m. transaction_id_of a = Inr m \<Longrightarrow>
     collect_synced_ids old S = Inr (S \<union> {x. \<exists>a\<in>set old. transaction_id_of a = Inr (Some x)})"
proof (induction old arbitrary: S)
  case Nil
  then show ?case by simp
next
  case (Cons a as)
  then obtain m where m: "transaction_id_of a = Inr m" by auto
  from Cons have "collect_synced_ids as T =
      Inr (T \<union> {x. \<exists>a\<in>set as. transaction_id_of a = Inr (Some x)})" for T
    by simp
  with m show ?case by (cases m) auto
qed

section \<open>The order of the result\<close>

text \<open>
  C7. When \<^verbatim>\<open>get_diff\<close> returns, its result is the candidate list filtered by
  "\<^verbatim>\<open>is_act_present\<close> is false", so it is a subsequence of the candidates in their
  order and holds exactly the candidates classified as new. It does return whenever
  the identifiers can be collected and \<^verbatim>\<open>is_act_present\<close> returns for every candidate.
\<close>

theorem get_diff_ordered_subsequence:
  "(get_diff old new = Inr d \<longrightarrow>
      (\<exists>ids. collect_synced_ids old {} = Inr ids \<and>
             d = filter (\<lambda>c. is_act_present c old ids = Inr False) new) \<and>
      subseq d new) \<and>
   (collect_synced_ids old {} = Inr ids \<and>
      (\<forall>c\<in>set new. \<exists>b. is_act_present c old ids = Inr b) \<longrightarrow>
      get_diff old new = Inr (filter (\<lambda>c. is_act_present c old ids = Inr False) new))"
proof (intro conjI impI)
  assume g: "get_diff old new = Inr d"
  then obtain ids where ids: "collect_synced_ids old {} = Inr ids"
    and cd: "collect_diff new old ids = Inr d"
    by (auto simp: get_diff_def thn_eq_Inr)
  from collect_diff_Inr [OF cd]
  have d: "d = filter (\<lambda>c. is_act_present c old ids = Inr False) new" by simp
  with ids show "\<exists>ids. collect_synced_ids old {} = Inr ids \<and>
             d = filter (\<lambda>c. is_act_present c old ids = Inr False) new" by blast
  from d show "subseq d new" by simp
next
  assume "collect_synced_ids old {} = Inr ids \<and>
      (\<forall>c\<in>set new. \<exists>b. is_act_present c old ids = Inr b)"
  then show "get_diff old new = Inr (filter (\<lambda>c. is_act_present c old ids = Inr False) new)"
    by (simp add: get_diff_def collect_diff_total)
qed

theorem get_diff_ordered_subsequence_witness:
  "get_diff [ledger_example] [second_marker_candidate, candidate_example] =
     Inr [second_marker_candidate] \<and>
   subseq [second_marker_candidate] [second_marker_candidate, candidate_example]"
proof -
  have ids: "transaction_id_of ledger_example = Inr None"
    by (simp add: ledger_example_def transaction_id_of_def dict_get_def)
  have p1: "is_act_present second_marker_candidate [ledger_example] {} = Inr False"
    by (simp add: second_marker_candidate_def ledger_example_def diff_defs normalizer_defs
        lookup_defs float_defs)
  have p2: "is_act_present candidate_example [ledger_example] {} = Inr True"
    by (simp add: candidate_example_def ledger_example_def diff_defs normalizer_defs
        lookup_defs float_defs)
  from get_diff_ordered_subsequence [of "[ledger_example]"
      "[second_marker_candidate, candidate_example]" "[second_marker_candidate]" "{}"]
  show ?thesis
    by (simp add: ids p1 p2) blast
qed

section \<open>The fields of the normal form\<close>

text \<open>
  C4. For an activity with the required fields, where the date is a string and
  \<^verbatim>\<open>float\<close> accepts the fee and the quantity: \<^verbatim>\<open>format_new_act\<close> returns the
  transaction whose fee and quantity are the absolute values of the converted inputs,
  whose date is the first 18 characters of the input date and whose unit price is the
  input's; \<^verbatim>\<open>format_existing_act\<close> returns the same fields whenever its symbol
  resolution returns.
\<close>

theorem normalizers_fields:
  assumes "map_of act ''accountId'' = Some acc"
    and "map_of act ''date'' = Some (JStr d)"
    and "map_of act ''fee'' = Some f" and "py_float f = Inr fv"
    and "map_of act ''quantity'' = Some q" and "py_float q = Inr qv"
    and "map_of act ''type'' = Some ty"
    and "map_of act ''unitPrice'' = Some up"
  shows "format_new_act act st =
           Inr \<lparr>tx_accountId = acc, tx_date = JStr (take 18 d), tx_fee = float_abs fv,
                tx_quantity = float_abs qv, tx_symbol = dict_get_default act st (JStr []),
                tx_type = ty, tx_unitPrice = up\<rparr> \<and>
         format_existing_act act st =
           thn (resolve_symbol act st) (\<lambda>sym.
             Inr \<lparr>tx_accountId = acc, tx_date = JStr (take 18 d), tx_fee = float_abs fv,
                  tx_quantity = float_abs qv, tx_symbol = sym, tx_type = ty, tx_unitPrice = up\<rparr>)"
  using assms by (simp add: format_new_act_def format_existing_act_def subscript_def)

theorem normalizers_fields_witness:
  "format_new_act ledger_example ''symbol'' =
     Inr \<lparr>tx_accountId = JStr ''1'', tx_date = JStr ''2024-01-01T00:00:0'', tx_fee = Finite 0,
          tx_quantity = Finite 5, tx_symbol = JStr [], tx_type = JStr ''BUY'',
          tx_unitPrice = JInt 10\<rparr> \<and>
   format_existing_act ledger_example ''symbol'' =
     Inr \<lparr>tx_accountId = JStr ''1'', tx_date = JStr ''2024-01-01T00:00:0'', tx_fee = Finite 0,
          tx_quantity = Finite 5, tx_symbol = JStr ''GF_KOURABTC'', tx_type = JStr ''BUY'',
          tx_unitPrice = JInt 10\<rparr>"
proof -
  have f: "py_float (JStr ''0'') = Inr (Finite 0)"
    by (simp add: float_defs)
  have q: "py_float (JStr ''-5.0'') = Inr (Finite (- 5))"
    by (simp add: float_defs)
  have s: "resolve_symbol ledger_example ''symbol'' = Inr (JStr ''GF_KOURABTC'')"
    by (simp add: ledger_example_def resolve_symbol_def nested_symbol_def symbol_missing_def
        lookup_defs)
  have g: "dict_get_default ledger_example ''symbol'' (JStr []) = JStr []"
    by (simp add: ledger_example_def lookup_defs)
  from normalizers_fields [of ledger_example "JStr ''1''" "''2024-01-01T00:00:00Z''"
      "JStr ''0''" "Finite 0" "JStr ''-5.0''" "Finite (- 5)" "JStr ''BUY''" "JInt 10" "''symbol''",
      OF _ _ _ f _ q]
  show ?thesis
    by (simp add: s g) (simp add: ledger_example_def)
qed

section \<open>The missing \<^verbatim>\<open>id\<close>\<close>

text \<open>
  C5. The candidate of the legacy-equality example is a ledger-shaped activity without
  \<^verbatim>\<open>id\<close> and without \<^verbatim>\<open>SymbolProfile\<close>, with a flat symbol. The ledger-path normalizer
  does not fall back to the flat symbol: building the warning reads \<^verbatim>\<open>act["id"]\<close> and
  raises \<^verbatim>\<open>KeyError\<close>.
\<close>

theorem format_existing_act_missing_id:
  "format_existing_act candidate_example ''symbol'' = Inl (KeyError ''id'')"
  by (simp add: candidate_example_def normalizer_defs lookup_defs)

section \<open>The search for the identifier\<close>

lemma length_marker [simp]: "length marker = 14"
  by (simp add: marker_def)

lemma match_here_Some_iff:
  "match_here s = Some g \<longleftrightarrow>
     (\<exists>rest. s = marker @ g @ rest \<and> g \<noteq> [] \<and> CHR ''|'' \<notin> set g \<and>
             (rest = [] \<or> hd rest = CHR ''|''))"
proof
  assume m: "match_here s = Some g"
  let ?t = "drop (length marker) s"
  from m have t: "take (length marker) s = marker"
    and g: "g = takeWhile (\<lambda>c. c \<noteq> CHR ''|'') ?t" and ne: "g \<noteq> []"
    by (auto simp: match_here_def Let_def split: if_splits)
  let ?rest = "dropWhile (\<lambda>c. c \<noteq> CHR ''|'') ?t"
  have "s = take (length marker) s @ ?t" by simp
  also have "\<dots> = marker @ g @ ?rest" using t g by simp
  finally have s: "s = marker @ g @ ?rest" .
  have r: "?rest = [] \<or> hd ?rest = CHR ''|''"
    using hd_dropWhile [of "\<lambda>c. c \<noteq> CHR ''|''" ?t] by blast
  have "CHR ''|'' \<notin> set g"
    using g by (auto dest: set_takeWhileD)
  with s ne r show "\<exists>rest. s = marker @ g @ rest \<and> g \<noteq> [] \<and> CHR ''|'' \<notin> set g \<and>
             (rest = [] \<or> hd rest = CHR ''|'')" by blast
next
  assume "\<exists>rest. s = marker @ g @ rest \<and> g \<noteq> [] \<and> CHR ''|'' \<notin> set g \<and>
             (rest = [] \<or> hd rest = CHR ''|'')"
  then obtain rest where s: "s = marker @ g @ rest" and ne: "g \<noteq> []"
    and g: "CHR ''|'' \<notin> set g" and r: "rest = [] \<or> hd rest = CHR ''|''" by blast
  from r have "takeWhile (\<lambda>c. c \<noteq> CHR ''|'') rest = []"
    by (cases rest) auto
  with g have "takeWhile (\<lambda>c. c \<noteq> CHR ''|'') (g @ rest) = g"
    by (subst takeWhile_append2) auto
  with s ne show "match_here s = Some g"
    by (simp add: match_here_def)
qed

lemma match_here_None_iff:
  "match_here s = None \<longleftrightarrow> \<not> (\<exists>c t. s = marker @ c # t \<and> c \<noteq> CHR ''|'')"
proof
  assume n: "match_here s = None"
  show "\<not> (\<exists>c t. s = marker @ c # t \<and> c \<noteq> CHR ''|'')"
  proof
    assume "\<exists>c t. s = marker @ c # t \<and> c \<noteq> CHR ''|''"
    then obtain c t where "s = marker @ c # t" "c \<noteq> CHR ''|''" by blast
    then have "match_here s \<noteq> None"
      by (simp add: match_here_def)
    with n show False by simp
  qed
next
  assume a: "\<not> (\<exists>c t. s = marker @ c # t \<and> c \<noteq> CHR ''|'')"
  show "match_here s = None"
  proof (rule ccontr)
    assume "match_here s \<noteq> None"
    then obtain g where "match_here s = Some g" by auto
    then obtain rest where "s = marker @ g @ rest" "g \<noteq> []" "CHR ''|'' \<notin> set g"
      by (auto simp: match_here_Some_iff)
    then have "s = marker @ hd g # (tl g @ rest) \<and> hd g \<noteq> CHR ''|''"
      by (cases g) auto
    with a show False by blast
  qed
qed

lemma match_here_Nil [simp]: "match_here [] = None"
  by (simp add: match_here_def marker_def)

lemma re_search_Some_iff:
  "re_search s = Some g \<longleftrightarrow>
     (\<exists>i. match_here (drop i s) = Some g \<and> (\<forall>j<i. match_here (drop j s) = None))"
proof (induction s)
  case Nil
  then show ?case by simp
next
  case (Cons c cs)
  show ?case
  proof (cases "match_here (c # cs)")
    case None
    have "(\<exists>i. match_here (drop i (c # cs)) = Some g \<and> (\<forall>j<i. match_here (drop j (c # cs)) = None))
       \<longleftrightarrow> (\<exists>i. match_here (drop i cs) = Some g \<and> (\<forall>j<i. match_here (drop j cs) = None))"
      (is "?L \<longleftrightarrow> ?R")
    proof
      assume ?L
      then obtain i where i: "match_here (drop i (c # cs)) = Some g"
        and j: "\<forall>j<i. match_here (drop j (c # cs)) = None" by blast
      from i None obtain k where k: "i = Suc k" by (cases i) auto
      from i k have "match_here (drop k cs) = Some g" by simp
      moreover have "\<forall>j<k. match_here (drop j cs) = None"
      proof (intro allI impI)
        fix j assume "j < k"
        then have "Suc j < i" using k by simp
        with j have "match_here (drop (Suc j) (c # cs)) = None" by blast
        then show "match_here (drop j cs) = None" by simp
      qed
      ultimately show ?R by blast
    next
      assume ?R
      then obtain k where i: "match_here (drop k cs) = Some g"
        and j: "\<forall>j<k. match_here (drop j cs) = None" by blast
      have "\<forall>j<Suc k. match_here (drop j (c # cs)) = None"
      proof (intro allI impI)
        fix j assume "j < Suc k"
        then show "match_here (drop j (c # cs)) = None"
          using None j by (cases j) auto
      qed
      with i have "match_here (drop (Suc k) (c # cs)) = Some g \<and>
          (\<forall>j<Suc k. match_here (drop j (c # cs)) = None)" by simp
      then show ?L by blast
    qed
    with None Cons.IH show ?thesis by simp
  next
    case (Some g')
    have "(\<exists>i. match_here (drop i (c # cs)) = Some g \<and> (\<forall>j<i. match_here (drop j (c # cs)) = None))
       \<longleftrightarrow> g' = g"
    proof
      assume "\<exists>i. match_here (drop i (c # cs)) = Some g \<and> (\<forall>j<i. match_here (drop j (c # cs)) = None)"
      then obtain i where i: "match_here (drop i (c # cs)) = Some g"
        and j: "\<forall>j<i. match_here (drop j (c # cs)) = None" by blast
      have "i = 0"
      proof (rule ccontr)
        assume "i \<noteq> 0"
        then have "0 < i" by simp
        with j have "match_here (drop 0 (c # cs)) = None" by blast
        with Some show False by simp
      qed
      with i Some show "g' = g" by simp
    next
      assume "g' = g"
      with Some have "match_here (drop 0 (c # cs)) = Some g \<and>
         (\<forall>j<0. match_here (drop j (c # cs)) = None)" by simp
      then show "\<exists>i. match_here (drop i (c # cs)) = Some g \<and> (\<forall>j<i. match_here (drop j (c # cs)) = None)"
        by blast
    qed
    with Some show ?thesis by simp
  qed
qed

lemma re_search_None_iff:
  "re_search s = None \<longleftrightarrow> (\<forall>i. match_here (drop i s) = None)"
proof (induction s)
  case Nil
  then show ?case by simp
next
  case (Cons c cs)
  have "(\<forall>i. match_here (drop i (c # cs)) = None) \<longleftrightarrow>
        match_here (c # cs) = None \<and> (\<forall>i. match_here (drop i cs) = None)"
  proof
    assume a: "\<forall>i. match_here (drop i (c # cs)) = None"
    then have "match_here (drop 0 (c # cs)) = None" by blast
    moreover have "match_here (drop i cs) = None" for i
      using a [rule_format, of "Suc i"] by simp
    ultimately show "match_here (c # cs) = None \<and> (\<forall>i. match_here (drop i cs) = None)"
      by simp
  next
    assume a: "match_here (c # cs) = None \<and> (\<forall>i. match_here (drop i cs) = None)"
    show "\<forall>i. match_here (drop i (c # cs)) = None"
    proof
      fix i show "match_here (drop i (c # cs)) = None"
        using a by (cases i) auto
    qed
  qed
  with Cons.IH show ?case
    by (cases "match_here (c # cs)") auto
qed


text \<open>
  C8. The search returns \<open>g\<close> exactly when the comment is
  \<open>pre @ marker @ g @ rest\<close> with \<open>g\<close> non-empty and free of pipes, \<open>rest\<close> empty or
  starting with a pipe, and no earlier position of the comment holding the literal
  followed by a character other than the pipe: the identifier follows the first
  well-formed occurrence of the literal, the first that has such a character after it,
  and runs to the next pipe or to the end. The search fails exactly when no position holds the literal
  followed by such a character. An absent comment gives no identifier and no error, and
  an existing activity without identifier adds nothing to the synced identifiers.
\<close>

theorem re_search_first_well_formed:
  "(re_search s = Some g \<longleftrightarrow>
      (\<exists>pre rest. s = pre @ marker @ g @ rest \<and> g \<noteq> [] \<and> CHR ''|'' \<notin> set g \<and>
         (rest = [] \<or> hd rest = CHR ''|'') \<and>
         (\<forall>i<length pre. \<not> (\<exists>c t. drop i s = marker @ c # t \<and> c \<noteq> CHR ''|'')))) \<and>
   (re_search s = None \<longleftrightarrow> (\<forall>i. \<not> (\<exists>c t. drop i s = marker @ c # t \<and> c \<noteq> CHR ''|''))) \<and>
   (dict_get act ''comment'' = JNull \<longrightarrow> transaction_id_of act = Inr None) \<and>
   (dict_get act ''comment'' = JStr s \<longrightarrow> transaction_id_of act = Inr (re_search s)) \<and>
   (transaction_id_of a = Inr None \<longrightarrow>
      collect_synced_ids (as1 @ a # as2) S = collect_synced_ids (as1 @ as2) S)"
proof (intro conjI impI)
  show "re_search s = Some g \<longleftrightarrow>
      (\<exists>pre rest. s = pre @ marker @ g @ rest \<and> g \<noteq> [] \<and> CHR ''|'' \<notin> set g \<and>
         (rest = [] \<or> hd rest = CHR ''|'') \<and>
         (\<forall>i<length pre. \<not> (\<exists>c t. drop i s = marker @ c # t \<and> c \<noteq> CHR ''|'')))"
    (is "?L \<longleftrightarrow> ?R")
  proof
    assume ?L
    then obtain i where i: "match_here (drop i s) = Some g"
      and j: "\<forall>j<i. match_here (drop j s) = None"
      by (auto simp: re_search_Some_iff)
    from i obtain rest where d: "drop i s = marker @ g @ rest" and g: "g \<noteq> []"
      "CHR ''|'' \<notin> set g" "rest = [] \<or> hd rest = CHR ''|''"
      by (auto simp: match_here_Some_iff)
    from d have "drop i s \<noteq> []" by (simp add: marker_def)
    then have len: "length (take i s) = i" by simp
    have "s = take i s @ drop i s" by simp
    with d have s: "s = take i s @ marker @ g @ rest" by simp
    from j len have "\<forall>k<length (take i s). \<not> (\<exists>c t. drop k s = marker @ c # t \<and> c \<noteq> CHR ''|'')"
      by (simp add: match_here_None_iff)
    with s g show ?R by blast
  next
    assume ?R
    then obtain pre rest where s: "s = pre @ marker @ g @ rest" and g: "g \<noteq> []"
      "CHR ''|'' \<notin> set g" "rest = [] \<or> hd rest = CHR ''|''"
      and j: "\<forall>i<length pre. \<not> (\<exists>c t. drop i s = marker @ c # t \<and> c \<noteq> CHR ''|'')"
      by blast
    from s have "drop (length pre) s = marker @ g @ rest" by simp
    with g have "match_here (drop (length pre) s) = Some g"
      by (auto simp: match_here_Some_iff)
    moreover from j have "\<forall>i<length pre. match_here (drop i s) = None"
      by (simp add: match_here_None_iff)
    ultimately show ?L
      unfolding re_search_Some_iff by blast
  qed
next
  show "re_search s = None \<longleftrightarrow> (\<forall>i. \<not> (\<exists>c t. drop i s = marker @ c # t \<and> c \<noteq> CHR ''|''))"
    by (simp add: re_search_None_iff match_here_None_iff)
next
  assume "dict_get act ''comment'' = JNull"
  then show "transaction_id_of act = Inr None"
    by (simp add: transaction_id_of_def)
next
  assume "dict_get act ''comment'' = JStr s"
  then show "transaction_id_of act = Inr (re_search s)"
    by (simp add: transaction_id_of_def)
next
  assume "transaction_id_of a = Inr None"
  then show "collect_synced_ids (as1 @ a # as2) S = collect_synced_ids (as1 @ as2) S"
  proof (induction as1 arbitrary: S)
    case Nil
    then show ?case by simp
  next
    case (Cons b bs)
    then show ?case
      by (cases "transaction_id_of b") (auto split: option.splits)
  qed
qed

theorem re_search_first_well_formed_witness:
  "re_search ''note|transactionId=ABC123|more'' = Some ''ABC123'' \<and>
   transaction_id_of candidate_example = Inr None \<and>
   transaction_id_of tagged_ledger_example = Inr (Some ''ABC123'') \<and>
   collect_synced_ids [candidate_example, tagged_ledger_example] {} =
     collect_synced_ids [tagged_ledger_example] {}"
proof -
  let ?s = "''note|transactionId=ABC123|more''"
  note w = re_search_first_well_formed [of ?s "''ABC123''" candidate_example candidate_example
      "[]" "[tagged_ledger_example]" "{}"]
  have n: "dict_get candidate_example ''comment'' = JNull"
    by (simp add: candidate_example_def dict_get_def)
  have early: "\<not> (\<exists>c t. drop i ?s = marker @ c # t \<and> c \<noteq> CHR ''|'')" if "i < 5" for i
  proof -
    from that consider "i = 0" | "i = 1" | "i = 2" | "i = 3" | "i = 4" by linarith
    then show ?thesis
      by cases (simp_all add: marker_def)
  qed
  have "?s = ''note|'' @ marker @ ''ABC123'' @ ''|more'' \<and> ''ABC123'' \<noteq> [] \<and>
      CHR ''|'' \<notin> set ''ABC123'' \<and> (''|more'' = [] \<or> hd ''|more'' = CHR ''|'') \<and>
      (\<forall>i<length ''note|''. \<not> (\<exists>c t. drop i ?s = marker @ c # t \<and> c \<noteq> CHR ''|''))"
    using early by (simp add: marker_def)
  then have "\<exists>pre rest. ?s = pre @ marker @ ''ABC123'' @ rest \<and> ''ABC123'' \<noteq> [] \<and>
      CHR ''|'' \<notin> set ''ABC123'' \<and> (rest = [] \<or> hd rest = CHR ''|'') \<and>
      (\<forall>i<length pre. \<not> (\<exists>c t. drop i ?s = marker @ c # t \<and> c \<noteq> CHR ''|''))"
    by blast
  with w have r: "re_search ?s = Some ''ABC123''" by blast
  from w n have c: "transaction_id_of candidate_example = Inr None" by blast
  with w have k: "collect_synced_ids ([] @ candidate_example # [tagged_ledger_example]) {} =
      collect_synced_ids ([] @ [tagged_ledger_example]) {}" by blast
  have "dict_get tagged_ledger_example ''comment'' = JStr ?s"
    by (simp add: tagged_ledger_example_def dict_get_def)
  with re_search_first_well_formed [of ?s "''ABC123''" tagged_ledger_example]
  have "transaction_id_of tagged_ledger_example = Inr (re_search ?s)" by blast
  with r c k show ?thesis by simp
qed

section \<open>The identifier fast path\<close>

text \<open>
  C2, as the code has it. When the identifier read from the comment of an existing
  activity (the one the search returns) is the identifier read from the comment of a
  candidate, \<^verbatim>\<open>get_diff\<close> behaves as if the candidate were not in the list, the candidate
  is in no result, and \<^verbatim>\<open>is_act_present\<close> returns true for it. Nothing is assumed about
  the other fields of the candidate, which may be missing or malformed: the legacy
  comparison, which would raise on them, is not reached.
\<close>

theorem identifier_fast_path:
  assumes e: "e \<in> set old"
    and se: "dict_get e ''comment'' = JStr se" and xe: "re_search se = Some x"
    and sc: "dict_get c ''comment'' = JStr sc" and xc: "re_search sc = Some x"
  shows "get_diff old (cs1 @ c # cs2) = get_diff old (cs1 @ cs2) \<and>
         (\<forall>d. get_diff old new = Inr d \<longrightarrow> c \<notin> set d) \<and>
         (\<forall>ids. collect_synced_ids old {} = Inr ids \<longrightarrow> is_act_present c old ids = Inr True)"
proof -
  from se xe have te: "transaction_id_of e = Inr (Some x)"
    by (simp add: transaction_id_of_def)
  from sc xc have tc: "transaction_id_of c = Inr (Some x)"
    by (simp add: transaction_id_of_def)
  have present: "is_act_present c old ids = Inr True"
    if "collect_synced_ids old {} = Inr ids" for ids
  proof -
    from collect_synced_ids_Inr [OF that] e te have "x \<in> ids" by blast
    with tc show ?thesis by (simp add: is_act_present_def)
  qed
  have skip: "get_diff old (cs1 @ c # cs2) = get_diff old (cs1 @ cs2)"
  proof (cases "collect_synced_ids old {}")
    case (Inl err)
    then show ?thesis by (simp add: get_diff_def)
  next
    case (Inr ids)
    with collect_diff_skip [OF present [OF Inr]] show ?thesis
      by (simp add: get_diff_def)
  qed
  have omitted: "c \<notin> set d" if "get_diff old new = Inr d" for d
  proof -
    from that obtain ids where ids: "collect_synced_ids old {} = Inr ids"
      and cd: "collect_diff new old ids = Inr d"
      by (auto simp: get_diff_def thn_eq_Inr)
    from collect_diff_Inr [OF cd] present [OF ids] show ?thesis by auto
  qed
  from skip omitted present show ?thesis by blast
qed

theorem identifier_fast_path_witness:
  "get_diff [tagged_ledger_example] [tagged_candidate_example] = Inr [] \<and>
   is_act_present tagged_candidate_example [tagged_ledger_example] {''ABC123''} = Inr True"
proof -
  have se: "dict_get tagged_ledger_example ''comment'' = JStr ''note|transactionId=ABC123|more''"
    by (simp add: tagged_ledger_example_def dict_get_def)
  have xe: "re_search ''note|transactionId=ABC123|more'' = Some ''ABC123''"
    by (simp add: match_here_def marker_def)
  have sc: "dict_get tagged_candidate_example ''comment'' = JStr ''transactionId=ABC123''"
    by (simp add: tagged_candidate_example_def dict_get_def)
  have xc: "re_search ''transactionId=ABC123'' = Some ''ABC123''"
    by (simp add: match_here_def marker_def)
  have te: "transaction_id_of tagged_ledger_example = Inr (Some ''ABC123'')"
    by (simp only: transaction_id_of_def se json.case xe)
  have ids: "collect_synced_ids [tagged_ledger_example] {} = Inr {''ABC123''}"
    by (simp add: te)
  from identifier_fast_path [of tagged_ledger_example "[tagged_ledger_example]" _ _
      tagged_candidate_example, OF _ se xe sc xc, of "[]" "[]"] ids
  show ?thesis
    by (simp add: get_diff_def)
qed

text \<open>
  C2, as it is stated, asks only that both comments contain the marker of the same
  identifier. The comment of \<open>two_marker_ledger\<close> contains the markers of \<^verbatim>\<open>A\<close> and of
  \<^verbatim>\<open>B\<close>; the search returns the first, so \<^verbatim>\<open>B\<close> is not a synced identifier and the
  candidate that carries \<^verbatim>\<open>B\<close> is returned as new.
\<close>

theorem identifier_second_marker_counterexample:
  "dict_get two_marker_ledger ''comment'' = JStr ''transactionId=A|transactionId=B'' \<and>
   contains_marker ''B'' ''transactionId=A|transactionId=B'' \<and>
   dict_get second_marker_candidate ''comment'' = JStr ''transactionId=B'' \<and>
   contains_marker ''B'' ''transactionId=B'' \<and>
   get_diff [two_marker_ledger] [second_marker_candidate] = Inr [second_marker_candidate]"
proof -
  have "''transactionId=A|transactionId=B'' = ''transactionId=A|'' @ marker @ ''B'' @ []"
    by (simp add: marker_def)
  then have 1: "contains_marker ''B'' ''transactionId=A|transactionId=B''"
    unfolding contains_marker_def by (intro conjI exI [of _ "''transactionId=A|''"] exI [of _ "[]"]) simp_all
  have "''transactionId=B'' = [] @ marker @ ''B'' @ []"
    by (simp add: marker_def)
  then have 2: "contains_marker ''B'' ''transactionId=B''"
    unfolding contains_marker_def by (intro conjI exI [of _ "[]"]) simp_all
  have 3: "get_diff [two_marker_ledger] [second_marker_candidate] = Inr [second_marker_candidate]"
    by (simp add: two_marker_ledger_def second_marker_candidate_def diff_defs normalizer_defs
        lookup_defs float_defs)
  from 1 2 3 show ?thesis
    by (simp add: two_marker_ledger_def second_marker_candidate_def dict_get_def)
qed

section \<open>The legacy comparison\<close>

lemma legacy_comparison_iff:
  assumes "\<forall>e\<in>set existing. \<exists>te. format_existing_act e ''symbol'' = Inr te"
    and "format_new_act c ''symbol'' = Inr tn"
  shows "legacy_comparison c existing =
           Inr (\<exists>e\<in>set existing. \<exists>te. format_existing_act e ''symbol'' = Inr te \<and> tx_eq te tn)"
  using assms
proof (induction existing)
  case Nil
  then show ?case by simp
next
  case (Cons e es)
  then obtain te where te: "format_existing_act e ''symbol'' = Inr te" by auto
  show ?case
  proof (cases "tx_eq te tn")
    case True
    with te Cons.prems show ?thesis by auto
  next
    case False
    with te Cons show ?thesis by auto
  qed
qed

lemma format_same_amounts:
  assumes other: "\<forall>k. k \<noteq> ''fee'' \<and> k \<noteq> ''quantity'' \<longrightarrow> map_of a k = map_of b k"
    and fa: "map_of a ''fee'' = Some fa" "py_float fa = Inr x"
    and fb: "map_of b ''fee'' = Some fb" "py_float fb = Inr y"
    and qa: "map_of a ''quantity'' = Some qa" "py_float qa = Inr u"
    and qb: "map_of b ''quantity'' = Some qb" "py_float qb = Inr v"
    and abs: "float_abs x = float_abs y" "float_abs u = float_abs v"
  shows "format_existing_act a ''symbol'' = format_existing_act b ''symbol'' \<and>
         format_new_act a ''symbol'' = format_new_act b ''symbol''"
proof -
  have k: "map_of a k = map_of b k" if "k \<noteq> ''fee''" "k \<noteq> ''quantity''" for k
    using other that by blast
  have i: "subscript a ''id'' = subscript b ''id''"
    "map_of a ''SymbolProfile'' = map_of b ''SymbolProfile''"
    by (simp_all add: lookup_defs k)
  have g: "dict_get_default a ''symbol'' (JStr []) = dict_get_default b ''symbol'' (JStr [])"
    by (simp add: lookup_defs k)
  have r: "resolve_symbol a ''symbol'' = resolve_symbol b ''symbol''"
    unfolding resolve_symbol_def nested_symbol_def i g ..
  have s: "subscript a ''accountId'' = subscript b ''accountId''"
    "subscript a ''date'' = subscript b ''date''"
    "subscript a ''type'' = subscript b ''type''"
    "subscript a ''unitPrice'' = subscript b ''unitPrice''"
    "dict_get_default a ''symbol'' (JStr []) = dict_get_default b ''symbol'' (JStr [])"
    by (simp_all add: lookup_defs k)
  have f: "thn (subscript a ''fee'') py_float = Inr x" "thn (subscript b ''fee'') py_float = Inr y"
    "thn (subscript a ''quantity'') py_float = Inr u"
    "thn (subscript b ''quantity'') py_float = Inr v"
    using fa fb qa qb by (simp_all add: subscript_def)
  show ?thesis
    unfolding format_existing_act_def format_new_act_def r s f
    by (simp add: abs)
qed


text \<open>
  C3. For a candidate the identifier fast path does not accept (its comment gives no
  identifier, or one that is not synced), when the existing activities and the candidate
  can be normalized: \<^verbatim>\<open>is_act_present\<close> returns true if and only if some existing
  activity normalizes on the nested-symbol path to a transaction that equals, in each of
  the seven fields, the flat-symbol normal form of the candidate. And two activities that
  differ only in how fee and quantity are written, with the same absolute values after
  \<^verbatim>\<open>float\<close>, have the same normal forms: signs and the string or number
  representation are normalized away.
\<close>

theorem legacy_comparison_seven_fields:
  "(transaction_id_of c = Inr m \<and> (\<forall>x. m = Some x \<longrightarrow> x \<notin> ids) \<and>
    (\<forall>e\<in>set existing. \<exists>te. format_existing_act e ''symbol'' = Inr te) \<and>
    format_new_act c ''symbol'' = Inr tn \<longrightarrow>
    is_act_present c existing ids =
      Inr (\<exists>e\<in>set existing. \<exists>te. format_existing_act e ''symbol'' = Inr te \<and>
             py_eq (tx_accountId te) (tx_accountId tn) \<and> py_eq (tx_date te) (tx_date tn) \<and>
             num_eq (tx_fee te) (tx_fee tn) \<and> num_eq (tx_quantity te) (tx_quantity tn) \<and>
             py_eq (tx_symbol te) (tx_symbol tn) \<and> py_eq (tx_type te) (tx_type tn) \<and>
             py_eq (tx_unitPrice te) (tx_unitPrice tn))) \<and>
   ((\<forall>k. k \<noteq> ''fee'' \<and> k \<noteq> ''quantity'' \<longrightarrow> map_of a k = map_of b k) \<and>
    map_of a ''fee'' = Some fa \<and> py_float fa = Inr x \<and>
    map_of b ''fee'' = Some fb \<and> py_float fb = Inr y \<and> float_abs x = float_abs y \<and>
    map_of a ''quantity'' = Some qa \<and> py_float qa = Inr u \<and>
    map_of b ''quantity'' = Some qb \<and> py_float qb = Inr v \<and> float_abs u = float_abs v \<longrightarrow>
    format_existing_act a ''symbol'' = format_existing_act b ''symbol'' \<and>
    format_new_act a ''symbol'' = format_new_act b ''symbol'')"
proof (intro conjI impI)
  assume h: "transaction_id_of c = Inr m \<and> (\<forall>x. m = Some x \<longrightarrow> x \<notin> ids) \<and>
    (\<forall>e\<in>set existing. \<exists>te. format_existing_act e ''symbol'' = Inr te) \<and>
    format_new_act c ''symbol'' = Inr tn"
  then have "is_act_present c existing ids = legacy_comparison c existing"
    by (cases m) (simp_all add: is_act_present_def)
  with h legacy_comparison_iff [of existing c tn]
  show "is_act_present c existing ids =
      Inr (\<exists>e\<in>set existing. \<exists>te. format_existing_act e ''symbol'' = Inr te \<and>
             py_eq (tx_accountId te) (tx_accountId tn) \<and> py_eq (tx_date te) (tx_date tn) \<and>
             num_eq (tx_fee te) (tx_fee tn) \<and> num_eq (tx_quantity te) (tx_quantity tn) \<and>
             py_eq (tx_symbol te) (tx_symbol tn) \<and> py_eq (tx_type te) (tx_type tn) \<and>
             py_eq (tx_unitPrice te) (tx_unitPrice tn))"
    by (simp add: tx_eq_def)
next
  assume h: "(\<forall>k. k \<noteq> ''fee'' \<and> k \<noteq> ''quantity'' \<longrightarrow> map_of a k = map_of b k) \<and>
    map_of a ''fee'' = Some fa \<and> py_float fa = Inr x \<and>
    map_of b ''fee'' = Some fb \<and> py_float fb = Inr y \<and> float_abs x = float_abs y \<and>
    map_of a ''quantity'' = Some qa \<and> py_float qa = Inr u \<and>
    map_of b ''quantity'' = Some qb \<and> py_float qb = Inr v \<and> float_abs u = float_abs v"
  then have "format_existing_act a ''symbol'' = format_existing_act b ''symbol'' \<and>
         format_new_act a ''symbol'' = format_new_act b ''symbol''"
    by (intro format_same_amounts [of a b fa x fb y qa u qb v]) blast+
  then show "format_existing_act a ''symbol'' = format_existing_act b ''symbol''"
    and "format_new_act a ''symbol'' = format_new_act b ''symbol''" by blast+
qed

theorem legacy_comparison_seven_fields_witness:
  "is_act_present candidate_example [ledger_example] {} = Inr True \<and>
   format_existing_act ledger_example ''symbol'' =
     format_existing_act numeric_ledger_example ''symbol''"
proof -
  note w = legacy_comparison_seven_fields [of candidate_example None "{}" "[ledger_example]"
      "\<lparr>tx_accountId = JStr ''1'', tx_date = JStr ''2024-01-01T00:00:0'', tx_fee = Finite 0,
        tx_quantity = Finite 5, tx_symbol = JStr ''GF_KOURABTC'', tx_type = JStr ''BUY'',
        tx_unitPrice = JInt 10\<rparr>"
      ledger_example numeric_ledger_example "JStr ''0''" "Finite 0" "JInt 0" "Finite 0"
      "JStr ''-5.0''" "Finite (- 5)" "JFloat 5" "Finite 5"]
  have t: "transaction_id_of candidate_example = Inr None"
    by (simp add: candidate_example_def transaction_id_of_def dict_get_def)
  have e: "format_existing_act ledger_example ''symbol'' =
      Inr \<lparr>tx_accountId = JStr ''1'', tx_date = JStr ''2024-01-01T00:00:0'', tx_fee = Finite 0,
        tx_quantity = Finite 5, tx_symbol = JStr ''GF_KOURABTC'', tx_type = JStr ''BUY'',
        tx_unitPrice = JInt 10\<rparr>"
    by (simp add: ledger_example_def normalizer_defs lookup_defs float_defs)
  have n: "format_new_act candidate_example ''symbol'' =
      Inr \<lparr>tx_accountId = JStr ''1'', tx_date = JStr ''2024-01-01T00:00:0'', tx_fee = Finite 0,
        tx_quantity = Finite 5, tx_symbol = JStr ''GF_KOURABTC'', tx_type = JStr ''BUY'',
        tx_unitPrice = JInt 10\<rparr>"
    by (simp add: candidate_example_def normalizer_defs lookup_defs float_defs)
  from w t e n have 1: "is_act_present candidate_example [ledger_example] {} = Inr True"
    by simp
  have o: "\<forall>k. k \<noteq> ''fee'' \<and> k \<noteq> ''quantity'' \<longrightarrow>
      map_of ledger_example k = map_of numeric_ledger_example k"
    by (simp add: ledger_example_def numeric_ledger_example_def)
  have f: "map_of ledger_example ''fee'' = Some (JStr ''0'')"
    "map_of numeric_ledger_example ''fee'' = Some (JInt 0)"
    "map_of ledger_example ''quantity'' = Some (JStr ''-5.0'')"
    "map_of numeric_ledger_example ''quantity'' = Some (JFloat 5)"
    by (simp_all add: ledger_example_def numeric_ledger_example_def)
  have p: "py_float (JStr ''0'') = Inr (Finite 0)" "py_float (JStr ''-5.0'') = Inr (Finite (- 5))"
    "py_float (JInt 0) = Inr (Finite 0)" "py_float (JFloat 5) = Inr (Finite 5)"
    by (simp_all add: float_defs)
  from w o f p have 2: "format_existing_act ledger_example ''symbol'' =
     format_existing_act numeric_ledger_example ''symbol''"
    by simp
  from 1 2 show ?thesis by blast
qed

section \<open>Running the diff again\<close>

text \<open>
  C1. The candidate of the legacy-equality example has the shape of the activities
  \<^verbatim>\<open>reconstruct_fund_purchases\<close> builds: no \<^verbatim>\<open>id\<close>, no \<^verbatim>\<open>SymbolProfile\<close>, no identifier in
  a comment. With no existing activity the first diff returns it. The second diff, over
  the returned candidate as existing activity, does not return the empty list: the
  ledger-path normalizer raises \<^verbatim>\<open>KeyError\<close> on the missing \<^verbatim>\<open>id\<close>.
\<close>

theorem get_diff_second_run_raises:
  "get_diff [] [candidate_example] = Inr [candidate_example] \<and>
   get_diff ([] @ [candidate_example]) [candidate_example] = Inl (KeyError ''id'')"
  by (simp add: candidate_example_def diff_defs normalizer_defs lookup_defs)

section \<open>The reconstructed purchases\<close>

lemma bit_length_nonneg: "0 \<le> bit_length n"
proof (induction n rule: bit_length.induct)
  case (1 n)
  then show ?case
    by (subst bit_length.simps) auto
qed

lemma bit_length_lower: "0 < n \<Longrightarrow> 2 ^ nat (bit_length n - 1) \<le> n"
proof (induction n rule: bit_length.induct)
  case (1 n)
  from "1.prems" have bl: "bit_length n = 1 + bit_length (n div 2)"
    by (subst bit_length.simps) simp
  show ?case
  proof (cases "n div 2 = 0")
    case True
    then have "bit_length (n div 2) = 0"
      by (simp add: bit_length.simps)
    with bl "1.prems" show ?thesis by simp
  next
    case False
    with "1.prems" have pos: "0 < n div 2" by (simp add: pos_imp_zdiv_pos_iff)
    with "1.prems" "1.IH" have ih: "2 ^ nat (bit_length (n div 2) - 1) \<le> n div 2" by simp
    from pos have "1 \<le> bit_length (n div 2)"
      using bit_length_nonneg [of "n div 2 div 2"]
      by (subst bit_length.simps) simp
    then have "nat (bit_length (n div 2)) = Suc (nat (bit_length (n div 2) - 1))" by simp
    then have "(2::int) ^ nat (bit_length (n div 2)) = 2 * 2 ^ nat (bit_length (n div 2) - 1)"
      by simp
    also have "\<dots> \<le> 2 * (n div 2)" using ih by simp
    also have "\<dots> \<le> n" by simp
    finally show ?thesis using bl by simp
  qed
qed

lemma pow2_pos: "0 < pow2 k"
  by (simp add: pow2_def)

lemma pow2_floor_log2: "1 \<le> a \<Longrightarrow> pow2 (floor_log2 a) \<le> a"
proof -
  assume a: "1 \<le> a"
  then have f: "0 < \<lfloor>a\<rfloor>" by simp
  from a f bit_length_nonneg [of "\<lfloor>a\<rfloor> div 2"] have "0 \<le> bit_length \<lfloor>a\<rfloor> - 1"
    by (subst bit_length.simps) simp
  with a have "pow2 (floor_log2 a) = 2 ^ nat (bit_length \<lfloor>a\<rfloor> - 1)"
    by (simp add: floor_log2_def pow2_def)
  also have "\<dots> = of_int (2 ^ nat (bit_length \<lfloor>a\<rfloor> - 1))" by simp
  also have "\<dots> \<le> of_int \<lfloor>a\<rfloor>"
    using bit_length_lower [OF f] by (simp only: of_int_le_iff)
  also have "\<dots> \<le> a" by simp
  finally show ?thesis .
qed

lemma pow2_less_52: "pow2 (k - 52) \<le> pow2 k"
proof (cases "52 \<le> k")
  case True
  then have "(2::rat) ^ nat (k - 52) \<le> 2 ^ nat k"
    by (intro power_increasing) auto
  with True show ?thesis by (simp add: pow2_def)
next
  case False
  have "1 / (2::rat) ^ nat (52 - k) \<le> 1" by (simp add: divide_le_eq)
  also have "(1::rat) \<le> 2 ^ nat k" by simp
  finally have "1 / (2::rat) ^ nat (52 - k) \<le> (if 0 \<le> k then 2 ^ nat k else 1 / 2 ^ nat (- k))"
    by (auto simp: divide_le_eq intro: order_trans)
  with False show ?thesis by (simp add: pow2_def)
qed

lemma round_half_even_ge_1: "1 \<le> x \<Longrightarrow> 1 \<le> round_half_even x"
proof -
  assume "1 \<le> x"
  then have "1 \<le> \<lfloor>x\<rfloor>" by simp
  then show ?thesis
    by (auto simp: round_half_even_def Let_def)
qed

lemma to_double_pos: "1 \<le> a \<Longrightarrow> 0 < to_double a"
proof -
  assume a: "1 \<le> a"
  define q where "q = max (floor_log2 a - 52) (- 1074)"
  have "pow2 (- 1074) \<le> 1" by (simp add: pow2_def divide_le_eq)
  with a have low: "pow2 (- 1074) \<le> a" by simp
  from pow2_less_52 [of "floor_log2 a"] pow2_floor_log2 [OF a]
  have "pow2 (floor_log2 a - 52) \<le> a" by simp
  with low have "pow2 q \<le> a" by (simp add: q_def max_def)
  with pow2_pos [of q] have "1 \<le> a / pow2 q" by (simp add: le_divide_eq)
  from round_half_even_ge_1 [OF this] have "0 < round_half_even (a / pow2 q)" by simp
  with pow2_pos [of q] have "0 < of_int (round_half_even (a / pow2 q)) * pow2 q"
    by simp
  with a show ?thesis
    by (simp add: to_double_def Let_def q_def)
qed



lemma py_float_positive:
  assumes "fits_float y" and "positive y"
  shows "\<exists>b. py_float y = Inr b \<and> b \<noteq> Finite 0"
proof (cases y)
  case (JBool b)
  with assms show ?thesis by (cases b) (auto simp: positive_def)
next
  case (JInt i)
  with assms have i: "0 < i" and o: "\<not> overflows (of_int i)"
    by (auto simp: positive_def fits_float_def float_of_int_def)
  from i have "(1::rat) \<le> of_int i" by simp
  from to_double_pos [OF this] o JInt show ?thesis
    by (simp add: float_of_int_def)
next
  case (JFloat r)
  with assms show ?thesis
    by (auto simp: positive_def)
qed (use assms in \<open>auto simp: fits_float_def\<close>)

lemma int_val_fits:
  assumes "int_val x = Some a" and "fits_float x"
  shows "\<not> overflows (of_int a)"
proof (cases x)
  case (JBool b)
  with assms show ?thesis by (cases b) (auto simp: overflows_def)
next
  case (JInt i)
  with assms show ?thesis
    by (auto simp: fits_float_def float_of_int_def split: if_splits)
qed (use assms in auto)

lemma int_val_num_val: "int_val x = Some a \<Longrightarrow> num_val x = Some (Finite (of_int a))"
  by (cases x) auto

lemma overflows_quotient:
  assumes "\<not> overflows (of_int a)" and "0 < b"
  shows "\<not> overflows (of_int a / of_int b)"
proof -
  from assms(2) have "(1::rat) \<le> of_int b" by simp
  then have "\<bar>of_int a / of_int b :: rat\<bar> \<le> \<bar>of_int a\<bar>"
    by (simp add: abs_divide divide_le_eq mult_le_cancel_left1)
  with assms(1) show ?thesis
    by (simp add: overflows_def)
qed

lemma truediv_fits:
  assumes x: "fits_float x" and y: "fits_float y" and pos: "positive y"
  shows "\<exists>p. truediv x y = Inr p"
proof (cases "\<exists>a b. int_val x = Some a \<and> int_val y = Some b")
  case True
  then obtain a b where a: "int_val x = Some a" and b: "int_val y = Some b" by blast
  from pos int_val_num_val [OF b] have "0 < b" by (simp add: positive_def)
  with overflows_quotient [OF int_val_fits [OF a x]] a b show ?thesis
    by (simp add: truediv_def)
next
  case False
  from x obtain v where v: "num_val x = Some v" by (auto simp: fits_float_def)
  from y obtain w where w: "num_val y = Some w" by (auto simp: fits_float_def)
  from x v obtain a where a: "py_float x = Inr a"
    by (cases x) (auto simp: fits_float_def float_of_int_def split: if_splits)
  from py_float_positive [OF y pos] obtain b where b: "py_float y = Inr b" "b \<noteq> Finite 0"
    by blast
  from False v w a b show ?thesis
    by (auto simp: truediv_def float_div_def split: option.splits)
qed

lemma format_4f_fits: "fits_float x \<Longrightarrow> \<exists>s. format_4f x = Inr s"
  by (cases x) (auto simp: fits_float_def float_of_int_def split: if_splits)

lemma le_zero_fits: "fits_float x \<Longrightarrow> le_zero x = Inr (\<not> positive x)"
  by (auto simp: fits_float_def le_zero_def positive_def)


lemma holding_activity_emit:
  assumes v: "fits_float (dict_get_default fund ''value'' (JInt 0))"
    and u: "fits_float (dict_get_default fund ''units'' (JInt 0))"
    and pv: "positive (dict_get_default fund ''value'' (JInt 0))"
    and pu: "positive (dict_get_default fund ''units'' (JInt 0))"
    and sym: "py_truthy (dict_get fund_mapping (fund_code repr fund))"
    and q: "round2 (dict_get_default fund ''value'' (JInt 0)) = Inr q"
  shows "\<exists>comment. holding_activity repr fund_mapping ghost_currency today fund =
     Inr (Some
        [(''accountId'', JNull),
         (''comment'', JStr comment),
         (''currency'', JStr ghost_currency),
         (''dataSource'', JStr ''MANUAL''),
         (''date'', JStr today),
         (''fee'', JInt 0),
         (''quantity'', q),
         (''symbol'', dict_get fund_mapping (fund_code repr fund)),
         (''type'', JStr ''BUY''),
         (''unitPrice'', JFloat 1)])"
proof -
  from format_4f_fits [OF u] obtain us where
    us: "format_4f (dict_get_default fund ''units'' (JInt 0)) = Inr us" by blast
  from truediv_fits [OF v u pu] obtain p where
    p: "truediv (dict_get_default fund ''value'' (JInt 0))
          (dict_get_default fund ''units'' (JInt 0)) = Inr p" by blast
  from v u pv pu sym q us p show ?thesis
    by (simp add: holding_activity_def Let_def le_zero_fits)
qed

lemma thn_not_error:
  "m \<noteq> Inl e \<Longrightarrow> (\<And>v. m = Inr v \<Longrightarrow> f v \<noteq> Inl e) \<Longrightarrow> thn m f \<noteq> Inl e"
  by (cases m) auto

lemma le_zero_not_zerodiv: "le_zero x \<noteq> Inl ZeroDivisionError"
  by (simp add: le_zero_def split: option.splits)

lemma py_float_not_zerodiv: "py_float x \<noteq> Inl ZeroDivisionError"
  by (cases x) (auto simp: float_of_int_def split: option.splits)

lemma format_4f_not_zerodiv: "format_4f x \<noteq> Inl ZeroDivisionError"
  using py_float_not_zerodiv [of x]
  by (cases x; cases "py_float x") (auto split: option.splits)

lemma round2_not_zerodiv: "round2 x \<noteq> Inl ZeroDivisionError"
  by (cases x) auto

lemma py_float_nonzero:
  assumes "le_zero y = Inr False" and "py_float y = Inr b"
  shows "b \<noteq> Finite 0"
proof (cases y)
  case (JBool c)
  with assms show ?thesis by (cases c) (auto simp: le_zero_def)
next
  case (JInt i)
  with assms have i: "0 < i" and b: "b = Finite (to_double (of_int i))"
    by (auto simp: le_zero_def float_of_int_def split: if_splits)
  from i have "(1::rat) \<le> of_int i" by simp
  from to_double_pos [OF this] b show ?thesis by simp
next
  case (JFloat r)
  with assms show ?thesis by (auto simp: le_zero_def)
qed (use assms in \<open>auto simp: le_zero_def\<close>)

lemma truediv_positive:
  assumes "le_zero y = Inr False"
  shows "truediv x y \<noteq> Inl ZeroDivisionError"
proof (cases "\<exists>a b. int_val x = Some a \<and> int_val y = Some b")
  case True
  then obtain a b where a: "int_val x = Some a" and b: "int_val y = Some b" by blast
  from assms int_val_num_val [OF b] have "b \<noteq> 0" by (auto simp: le_zero_def)
  with a b show ?thesis by (simp add: truediv_def)
next
  case False
  show ?thesis
  proof (cases "py_float y")
    case (Inl e)
    with py_float_not_zerodiv [of y] py_float_not_zerodiv [of x] False show ?thesis
      by (cases "py_float x") (auto simp: truediv_def split: option.splits)
  next
    case (Inr b)
    from py_float_nonzero [OF assms Inr] Inr py_float_not_zerodiv [of x] False show ?thesis
      by (cases "py_float x") (auto simp: truediv_def float_div_def split: option.splits)
  qed
qed

lemma holding_activity_not_zerodiv:
  "holding_activity repr fund_mapping ghost_currency today fund \<noteq> Inl ZeroDivisionError"
proof -
  let ?units = "dict_get_default fund ''units'' (JInt 0)"
  let ?val = "dict_get_default fund ''value'' (JInt 0)"
  let ?symbol = "dict_get fund_mapping (fund_code repr fund)"
  have emit: "thn (format_4f ?units) (\<lambda>us.
        thn (thn (truediv ?val ?units) (\<lambda>p. Inr (format_float p))) (\<lambda>ps.
        thn (round2 ?val) (\<lambda>q. Inr (Some (act us ps q))))) \<noteq> Inl ZeroDivisionError"
    if "le_zero ?units = Inr False" for act :: "string \<Rightarrow> string \<Rightarrow> json \<Rightarrow> pydict"
    by (intro thn_not_error format_4f_not_zerodiv round2_not_zerodiv truediv_positive that)
      simp_all
  show ?thesis
  proof (cases "le_zero ?val")
    case (Inl e)
    with le_zero_not_zerodiv [of ?val] show ?thesis
      by (simp add: holding_activity_def Let_def)
  next
    case v0: (Inr v0)
    show ?thesis
    proof (cases v0)
      case True
      with v0 show ?thesis by (simp add: holding_activity_def Let_def)
    next
      case False
      show ?thesis
      proof (cases "le_zero ?units")
        case (Inl e)
        with le_zero_not_zerodiv [of ?units] v0 False show ?thesis
          by (simp add: holding_activity_def Let_def)
      next
        case (Inr skip)
        show ?thesis
        proof (cases "skip \<or> \<not> py_truthy ?symbol")
          case True
          with v0 False Inr show ?thesis
            by (auto simp: holding_activity_def Let_def)
        next
          case nskip: False
          with Inr have "le_zero ?units = Inr False" by simp
          from emit [OF this] v0 False Inr nskip show ?thesis
            by (simp add: holding_activity_def Let_def)
        qed
      qed
    qed
  qed
qed

lemma holding_activity_Some_units:
  assumes "holding_activity repr fund_mapping ghost_currency today fund = Inr (Some a)"
  shows "\<exists>u. num_val (dict_get_default fund ''units'' (JInt 0)) = Some u \<and>
           (u = PInf \<or> (\<exists>r. u = Finite r \<and> 0 < r))"
proof -
  from assms have "le_zero (dict_get_default fund ''units'' (JInt 0)) = Inr False"
    unfolding holding_activity_def Let_def
    by (auto simp: thn_eq_Inr split: if_splits)
  then obtain u where u: "num_val (dict_get_default fund ''units'' (JInt 0)) = Some u"
    and n: "\<not> num_le_zero u"
    by (auto simp: le_zero_def split: option.splits)
  have "u \<noteq> NaN"
    using u by (cases "dict_get_default fund ''units'' (JInt 0)")
      (auto simp: round_double_def split: if_splits)
  with n have "u = PInf \<or> (\<exists>r. u = Finite r \<and> 0 < r)"
    by (cases u) auto
  with u show ?thesis by blast
qed

lemma truediv_zero: "num_val x = Some v \<Longrightarrow> truediv x (JInt 0) = Inl ZeroDivisionError"
  by (cases x)
    (auto simp: truediv_def float_div_def float_of_int_def overflows_def to_double_def)


lemmas holding_defs = empty_holding_def cash_holding_def unmapped_holding_def
  default_fund_mapping_def empty_symbol_mapping_def fund_code_def py_or_def positive_def
  fits_float_def



text \<open>
  C9. \<^verbatim>\<open>reconstruct_fund_purchases\<close> never raises \<^verbatim>\<open>ZeroDivisionError\<close>, whatever the
  holdings are, and a holding for which an activity is built has units that are a
  number greater than zero.
\<close>

theorem reconstruct_never_divides_by_zero:
  "reconstruct_fund_purchases repr fund_mapping ghost_currency today funds
     \<noteq> Inl ZeroDivisionError \<and>
   (holding_activity repr fund_mapping ghost_currency today fund = Inr (Some a) \<longrightarrow>
      (\<exists>u. num_val (dict_get_default fund ''units'' (JInt 0)) = Some u \<and>
           (u = PInf \<or> (\<exists>r. u = Finite r \<and> 0 < r))))"
proof
  show "reconstruct_fund_purchases repr fund_mapping ghost_currency today funds
     \<noteq> Inl ZeroDivisionError"
  proof (induction funds)
    case Nil
    then show ?case by simp
  next
    case (Cons f fs)
    show ?case
      using holding_activity_not_zerodiv [of repr fund_mapping ghost_currency today f] Cons
      by (cases "holding_activity repr fund_mapping ghost_currency today f";
          cases "reconstruct_fund_purchases repr fund_mapping ghost_currency today fs") auto
  qed
next
  show "holding_activity repr fund_mapping ghost_currency today fund = Inr (Some a) \<longrightarrow>
      (\<exists>u. num_val (dict_get_default fund ''units'' (JInt 0)) = Some u \<and>
           (u = PInf \<or> (\<exists>r. u = Finite r \<and> 0 < r)))"
    using holding_activity_Some_units by blast
qed

theorem reconstruct_never_divides_by_zero_witness:
  "reconstruct_fund_purchases (\<lambda>_. []) default_fund_mapping ''NZD'' ''2026-01-01T00:00:00''
      [empty_holding, cash_holding, unmapped_holding] \<noteq> Inl ZeroDivisionError \<and>
   (\<exists>u. num_val (dict_get_default cash_holding ''units'' (JInt 0)) = Some u \<and>
        (u = PInf \<or> (\<exists>r. u = Finite r \<and> 0 < r)))"
proof -
  have f: "fits_float (dict_get_default cash_holding ''value'' (JInt 0))"
    "fits_float (dict_get_default cash_holding ''units'' (JInt 0))"
    "positive (dict_get_default cash_holding ''value'' (JInt 0))"
    "positive (dict_get_default cash_holding ''units'' (JInt 0))"
    "py_truthy (dict_get default_fund_mapping (fund_code (\<lambda>_. []) cash_holding))"
    by (simp_all add: holding_defs lookup_defs float_defs)
  have q: "round2 (dict_get_default cash_holding ''value'' (JInt 0)) = Inr (JFloat 150)"
    by (simp add: cash_holding_def dict_get_default_def round_half_even_def float_defs)
  from holding_activity_emit [OF f q, of "''NZD''" "''2026-01-01T00:00:00''"]
  have "\<exists>a. holding_activity (\<lambda>_. []) default_fund_mapping ''NZD'' ''2026-01-01T00:00:00''
      cash_holding = Inr (Some a)" by blast
  with reconstruct_never_divides_by_zero [of "\<lambda>_. []" default_fund_mapping "''NZD''"
      "''2026-01-01T00:00:00''" "[empty_holding, cash_holding, unmapped_holding]" cash_holding]
  show ?thesis by blast
qed

section \<open>The closest previous valuation\<close>

lemma closest_previous_spec:
  assumes "\<forall>e\<in>set v. \<exists>d. strptime (fst e) = Inr d"
  shows "\<exists>r. closest_previous t v cd cp = Inr r \<and>
    (if \<exists>e\<in>set v. \<exists>d. strptime (fst e) = Inr d \<and> d \<le> t \<and> later_than cd d
     then \<exists>e\<in>set v. \<exists>d. strptime (fst e) = Inr d \<and> d \<le> t \<and> r = snd e \<and> later_than cd d \<and>
            (\<forall>e'\<in>set v. \<forall>d'. strptime (fst e') = Inr d' \<and> d' \<le> t \<longrightarrow> d' \<le> d)
     else r = cp)"
  using assms
proof (induction v arbitrary: cd cp)
  case Nil
  then show ?case by simp
next
  case (Cons e rest)
  from Cons.prems obtain dt where dt: "strptime (fst e) = Inr dt" by fastforce
  from Cons.prems have rest: "\<forall>e\<in>set rest. \<exists>d. strptime (fst e) = Inr d" by simp
  have step: "closest_previous t (e # rest) cd cp =
      (if dt \<le> t \<and> later_than cd dt then closest_previous t rest (Some dt) (snd e)
       else closest_previous t rest cd cp)"
    using dt by (cases e) simp
  show ?case
  proof (cases "dt \<le> t \<and> later_than cd dt")
    case True
    from Cons.IH [OF rest, of "Some dt" "snd e"] obtain r where
      r: "closest_previous t rest (Some dt) (snd e) = Inr r"
      and s: "if \<exists>e\<in>set rest. \<exists>d. strptime (fst e) = Inr d \<and> d \<le> t \<and> later_than (Some dt) d
         then \<exists>e\<in>set rest. \<exists>d. strptime (fst e) = Inr d \<and> d \<le> t \<and> r = snd e \<and>
            later_than (Some dt) d \<and>
            (\<forall>e'\<in>set rest. \<forall>d'. strptime (fst e') = Inr d' \<and> d' \<le> t \<longrightarrow> d' \<le> d)
         else r = snd e"
      by blast
    from True step r have run: "closest_previous t (e # rest) cd cp = Inr r" by simp
    have best: "\<exists>e2\<in>set (e # rest). \<exists>d. strptime (fst e2) = Inr d \<and> d \<le> t \<and> r = snd e2 \<and>
            later_than cd d \<and>
            (\<forall>e'\<in>set (e # rest). \<forall>d'. strptime (fst e') = Inr d' \<and> d' \<le> t \<longrightarrow> d' \<le> d)"
    proof (cases "\<exists>e\<in>set rest. \<exists>d. strptime (fst e) = Inr d \<and> d \<le> t \<and> later_than (Some dt) d")
      case later: True
      with s obtain e2 d where m: "e2 \<in> set rest" "strptime (fst e2) = Inr d" "d \<le> t"
        "r = snd e2" "dt < d"
        and mx: "\<forall>e'\<in>set rest. \<forall>d'. strptime (fst e') = Inr d' \<and> d' \<le> t \<longrightarrow> d' \<le> d"
        by (simp only: if_True later_than.simps) blast
      from True m(5) have "later_than cd d"
        by (cases cd) (simp_all, metis less_trans)
      moreover from mx m(5) dt
      have "\<forall>e'\<in>set (e # rest). \<forall>d'. strptime (fst e') = Inr d' \<and> d' \<le> t \<longrightarrow> d' \<le> d"
        by (auto intro: less_imp_le)
      ultimately show ?thesis using m by (metis list.set_intros(2))
    next
      case none: False
      with s have rp: "r = snd e" by (simp only: if_False)
      from none have "\<forall>e'\<in>set rest. \<forall>d'. strptime (fst e') = Inr d' \<and> d' \<le> t \<longrightarrow> d' \<le> dt"
        by (simp only: later_than.simps) (meson not_less)
      with dt have "\<forall>e'\<in>set (e # rest). \<forall>d'. strptime (fst e') = Inr d' \<and> d' \<le> t \<longrightarrow> d' \<le> dt"
        by auto
      with True dt rp show ?thesis by (metis list.set_intros(1))
    qed
    then have "\<exists>e2\<in>set (e # rest). \<exists>d. strptime (fst e2) = Inr d \<and> d \<le> t \<and> later_than cd d"
      by blast
    with best run show ?thesis by (simp only: if_True) blast
  next
    case False
    from Cons.IH [OF rest, of cd cp] obtain r where
      r: "closest_previous t rest cd cp = Inr r"
      and s: "if \<exists>e\<in>set rest. \<exists>d. strptime (fst e) = Inr d \<and> d \<le> t \<and> later_than cd d
         then \<exists>e\<in>set rest. \<exists>d. strptime (fst e) = Inr d \<and> d \<le> t \<and> r = snd e \<and>
            later_than cd d \<and>
            (\<forall>e'\<in>set rest. \<forall>d'. strptime (fst e') = Inr d' \<and> d' \<le> t \<longrightarrow> d' \<le> d)
         else r = cp"
      by blast
    from False step r have run: "closest_previous t (e # rest) cd cp = Inr r" by auto
    show ?thesis
    proof (cases "\<exists>e\<in>set rest. \<exists>d. strptime (fst e) = Inr d \<and> d \<le> t \<and> later_than cd d")
      case some: True
      with s obtain e2 d where m: "e2 \<in> set rest" "strptime (fst e2) = Inr d" "d \<le> t"
        "r = snd e2" "later_than cd d"
        and mx: "\<forall>e'\<in>set rest. \<forall>d'. strptime (fst e') = Inr d' \<and> d' \<le> t \<longrightarrow> d' \<le> d"
        by (simp only: if_True) blast
      have "dt \<le> d" if "dt \<le> t"
      proof (cases cd)
        case None
        with that False show ?thesis by simp
      next
        case (Some c)
        with that False have "dt \<le> c" by (simp add: not_less)
        moreover from Some m(5) have "c < d" by simp
        ultimately show ?thesis by (metis less_imp_le order_trans)
      qed
      with mx dt
      have "\<forall>e'\<in>set (e # rest). \<forall>d'. strptime (fst e') = Inr d' \<and> d' \<le> t \<longrightarrow> d' \<le> d"
        by auto
      with m have best: "\<exists>e2\<in>set (e # rest). \<exists>d. strptime (fst e2) = Inr d \<and> d \<le> t \<and>
            r = snd e2 \<and> later_than cd d \<and>
            (\<forall>e'\<in>set (e # rest). \<forall>d'. strptime (fst e') = Inr d' \<and> d' \<le> t \<longrightarrow> d' \<le> d)"
        by (metis list.set_intros(2))
      then have "\<exists>e2\<in>set (e # rest). \<exists>d. strptime (fst e2) = Inr d \<and> d \<le> t \<and> later_than cd d"
        by blast
      with best run show ?thesis by (simp only: if_True) blast
    next
      case none: False
      with s have rc: "r = cp" by (simp only: if_False)
      from none False dt
      have "\<not> (\<exists>e2\<in>set (e # rest). \<exists>d. strptime (fst e2) = Inr d \<and> d \<le> t \<and> later_than cd d)"
        by auto
      with run rc show ?thesis by (simp only: if_False) blast
    qed
  qed
qed


text \<open>
  C10. When the requested date is a key of the valuation, \<^verbatim>\<open>get_unit_price_for_date\<close>
  returns the price stored under it. Otherwise, when the requested date and every key
  are dates \<^verbatim>\<open>strptime\<close> accepts, it returns without raising: the price of an entry whose
  date is not after the requested date and is the greatest such date, if there is one,
  and \<^verbatim>\<open>None\<close> if every valuation date is after the requested date.
\<close>

theorem get_unit_price_for_date_closest:
  "(dict_get_default fund_data ''valuation'' (JObj []) = JObj v \<and> map_of v td = Some p \<longrightarrow>
      get_unit_price_for_date fund_data td = Inr p) \<and>
   (dict_get_default fund_data ''valuation'' (JObj []) = JObj v \<and> map_of v td = None \<and>
    strptime td = Inr t \<and> (\<forall>e\<in>set v. \<exists>d. strptime (fst e) = Inr d) \<longrightarrow>
      (\<exists>r. get_unit_price_for_date fund_data td = Inr r \<and>
         (if \<exists>e\<in>set v. \<exists>d. strptime (fst e) = Inr d \<and> d \<le> t
          then \<exists>e\<in>set v. \<exists>d. strptime (fst e) = Inr d \<and> d \<le> t \<and> r = snd e \<and>
                 (\<forall>e'\<in>set v. \<forall>d'. strptime (fst e') = Inr d' \<and> d' \<le> t \<longrightarrow> d' \<le> d)
          else r = JNull)))"
proof (intro conjI impI)
  assume "dict_get_default fund_data ''valuation'' (JObj []) = JObj v \<and> map_of v td = Some p"
  then show "get_unit_price_for_date fund_data td = Inr p"
    by (simp add: get_unit_price_for_date_def)
next
  assume h: "dict_get_default fund_data ''valuation'' (JObj []) = JObj v \<and> map_of v td = None \<and>
    strptime td = Inr t \<and> (\<forall>e\<in>set v. \<exists>d. strptime (fst e) = Inr d)"
  then have g: "get_unit_price_for_date fund_data td = closest_previous t v None JNull"
    by (simp add: get_unit_price_for_date_def)
  from h have "\<forall>e\<in>set v. \<exists>d. strptime (fst e) = Inr d" by blast
  from closest_previous_spec [OF this, of t None JNull] g
  show "\<exists>r. get_unit_price_for_date fund_data td = Inr r \<and>
         (if \<exists>e\<in>set v. \<exists>d. strptime (fst e) = Inr d \<and> d \<le> t
          then \<exists>e\<in>set v. \<exists>d. strptime (fst e) = Inr d \<and> d \<le> t \<and> r = snd e \<and>
                 (\<forall>e'\<in>set v. \<forall>d'. strptime (fst e') = Inr d' \<and> d' \<le> t \<longrightarrow> d' \<le> d)
          else r = JNull)"
    by (simp only: later_than.simps simp_thms)
qed

lemmas strptime_defs = strptime_def parse_month_def parse_day_def two_digits_def
  days_in_month_def is_leap_def is_digit_def digit_val_def digits_val_def

theorem get_unit_price_for_date_closest_witness:
  "get_unit_price_for_date valued_holding ''2024-01-10'' = Inr (JFloat 2) \<and>
   get_unit_price_for_date valued_holding ''2024-01-07'' = Inr (JFloat 3) \<and>
   get_unit_price_for_date valued_holding ''2023-12-31'' = Inr JNull"
proof -
  let ?v = "[(''2024-01-01'', JFloat 1), (''2024-01-10'', JFloat 2), (''2024-01-05'', JFloat 3)]"
  have v: "dict_get_default valued_holding ''valuation'' (JObj []) = JObj ?v"
    by (simp add: valued_holding_def dict_get_default_def)
  have d: "strptime ''2024-01-01'' = Inr (2024, 1, 1)" "strptime ''2024-01-10'' = Inr (2024, 1, 10)"
    "strptime ''2024-01-05'' = Inr (2024, 1, 5)" "strptime ''2024-01-07'' = Inr (2024, 1, 7)"
    "strptime ''2023-12-31'' = Inr (2023, 12, 31)"
    by (simp_all add: strptime_defs)
  have keys: "\<forall>e\<in>set ?v. \<exists>d. strptime (fst e) = Inr d"
    by (simp add: d)
  from get_unit_price_for_date_closest [of valued_holding ?v "''2024-01-10''" "JFloat 2"] v
  have 1: "get_unit_price_for_date valued_holding ''2024-01-10'' = Inr (JFloat 2)"
    by simp
  from get_unit_price_for_date_closest [of valued_holding ?v "''2024-01-07''" _ "(2024, 1, 7)"]
    v keys d
  have 2: "get_unit_price_for_date valued_holding ''2024-01-07'' = Inr (JFloat 3)"
    by auto
  from get_unit_price_for_date_closest [of valued_holding ?v "''2023-12-31''" _ "(2023, 12, 31)"]
    v keys d
  have 3: "get_unit_price_for_date valued_holding ''2023-12-31'' = Inr JNull"
    by auto
  from 1 2 3 show ?thesis by blast
qed

end
